theory Spec2Isabelle
  imports Complex_Main
begin

section \<open>Train dynamics and signalling kernel\<close>

text \<open>
  The five numerical routines of \<^verbatim>\<open>train_sim\<close> are embedded as HOL functions:
  \<^verbatim>\<open>slope.py\<close>, \<^verbatim>\<open>curve_resistance.py\<close>, \<^verbatim>\<open>acceleration.py\<close>, \<^verbatim>\<open>braking.py\<close> and
  \<^verbatim>\<open>block_occupancy.py\<close>.

  Numbers: a Python or numpy float is a \<^typ>\<open>real\<close>; rounding, overflow and the IEEE
  infinities are outside this model. The two resistance calculators are embedded a second
  time with the rounding of double-precision arithmetic, further below, for the one
  property that rounding decides. The marker NaN, which the source writes into an output
  cell that has no defined value, is \<^term>\<open>None\<close>; a defined cell is \<^term>\<open>Some x\<close>.
  Exceptions are values of \<open>py_error\<close>, returned as \<^term>\<open>Inl e\<close>.
\<close>

datatype py_error = IndexError | ZeroDivisionError | ValueError

text \<open>
  Indexing a numpy array (or a Python list) with an integer: a negative index counts from
  the end, and an index outside \<open>[-n, n)\<close> raises \<^verbatim>\<open>IndexError\<close>.
\<close>

definition np_get :: "'a list \<Rightarrow> int \<Rightarrow> py_error + 'a" where
  "np_get xs i =
     (if 0 \<le> i \<and> i < int (length xs) then Inr (xs ! nat i)
      else if i < 0 \<and> - int (length xs) \<le> i then Inr (xs ! nat (int (length xs) + i))
      else Inl IndexError)"

text \<open>Running a list of computations in order; the first exception aborts the whole call.\<close>

fun collect :: "(py_error + 'a) list \<Rightarrow> py_error + 'a list" where
  "collect [] = Inr []"
| "collect (r # rs) =
     (case r of
        Inl e \<Rightarrow> Inl e
      | Inr x \<Rightarrow> (case collect rs of Inl e \<Rightarrow> Inl e | Inr xs \<Rightarrow> Inr (x # xs)))"

subsection \<open>Overlapped intervals (\<^verbatim>\<open>np.where\<close> over the breakpoints)\<close>

text \<open>
  \<^verbatim>\<open>np.where((pos[0] < p[1:]) & (pos[1] >= p[:-1]))[0]\<close>: the indices \<open>j\<close>, in
  increasing order, of the intervals \<open>[p[j], p[j+1])\<close> that the span \<open>[pos0, pos1]\<close> touches.
\<close>

definition inkl_intv :: "real list \<Rightarrow> real \<Rightarrow> real \<Rightarrow> nat list" where
  "inkl_intv p pos0 pos1 =
     filter (\<lambda>j. pos0 < tl p ! j \<and> pos1 \<ge> butlast p ! j) [0..<length p - 1]"

subsection \<open>Equivalent slope (\<^verbatim>\<open>slope.py\<close>)\<close>

text \<open>
  The inner loop \<^verbatim>\<open>for i, idx in enumerate(inkl_intv)\<close> of the branch with more than one
  overlapped interval; \<open>n\<close> is \<^verbatim>\<open>len(inkl_intv)\<close>, \<open>i\<close> the running position and \<open>total\<close>
  the accumulator.
\<close>

fun slope_loop ::
  "real list \<Rightarrow> real list \<Rightarrow> real \<Rightarrow> real \<Rightarrow> nat \<Rightarrow> nat \<Rightarrow> nat list \<Rightarrow> real \<Rightarrow> py_error + real"
where
  "slope_loop lutning_pos lutning pos0 pos1 n i [] total' = Inr total'"
| "slope_loop lutning_pos lutning pos0 pos1 n i (idx # rest) total' =
     (case np_get lutning (int idx) of
        Inl e \<Rightarrow> Inl e
      | Inr val \<Rightarrow>
          (let seg =
                 (if i = 0 then val * (lutning_pos ! (idx + 1) - pos0)
                  else if i = n - 1 then val * (pos1 - lutning_pos ! idx)
                  else val * (lutning_pos ! (idx + 1) - lutning_pos ! idx))
           in slope_loop lutning_pos lutning pos0 pos1 n (i + 1) rest (total' + seg)))"

text \<open>The body of the outer loop: the equivalent slope at one sample position \<open>xp\<close>.\<close>

definition equivalent_slope_at ::
  "real list \<Rightarrow> real list \<Rightarrow> real \<Rightarrow> real \<Rightarrow> py_error + real option"
where
  "equivalent_slope_at lutning_pos lutning train_length xp =
     (let pos0 = xp - train_length; pos1 = xp;
          intv = inkl_intv lutning_pos pos0 pos1
      in if length intv = 1 then
           (case np_get lutning (int (intv ! 0)) of
              Inl e \<Rightarrow> Inl e
            | Inr val \<Rightarrow> Inr (Some val))
         else if length intv > 1 then
           (case slope_loop lutning_pos lutning pos0 pos1 (length intv) 0 intv 0 of
              Inl e \<Rightarrow> Inl e
            | Inr total' \<Rightarrow> Inr (Some (total' / (pos1 - pos0))))
         else Inr None)"

definition calculate_equivalent_slope ::
  "real list \<Rightarrow> real list \<Rightarrow> real list \<Rightarrow> real \<Rightarrow> py_error + real option list"
where
  "calculate_equivalent_slope lutning_pos lutning x_pos train_length =
     collect (map (equivalent_slope_at lutning_pos lutning train_length) x_pos)"

subsection \<open>Curve resistance (\<^verbatim>\<open>curve_resistance.py\<close>)\<close>

text \<open>
  The inner loop of the branch with more than one overlapped interval. The source binds
  \<^verbatim>\<open>curve_force\<close> at \<open>i = 0\<close> and adds to it afterwards.
\<close>

fun curve_loop ::
  "real list \<Rightarrow> real list \<Rightarrow> real \<Rightarrow> real \<Rightarrow> real \<Rightarrow> nat \<Rightarrow> nat \<Rightarrow> nat list \<Rightarrow> real
     \<Rightarrow> py_error + real"
where
  "curve_loop curve_pos curve_radius train_mass pos0 pos1 n i [] curve_force = Inr curve_force"
| "curve_loop curve_pos curve_radius train_mass pos0 pos1 n i (idx # rest) curve_force =
     (case np_get curve_radius (int idx) of
        Inl e \<Rightarrow> Inl e
      | Inr r \<Rightarrow>
          (let tmp =
                 (if r < 300 then 4.91 / (r - 30) * train_mass / (pos1 - pos0)
                  else 6.3 / (r - 55) * train_mass / (pos1 - pos0))
           in if i = 0 then
                curve_loop curve_pos curve_radius train_mass pos0 pos1 n (i + 1) rest
                  (tmp * (curve_pos ! (idx + 1) - pos0))
              else if i = n - 1 then
                curve_loop curve_pos curve_radius train_mass pos0 pos1 n (i + 1) rest
                  (curve_force + tmp * (pos1 - curve_pos ! idx))
              else
                curve_loop curve_pos curve_radius train_mass pos0 pos1 n (i + 1) rest
                  (curve_force + tmp * (curve_pos ! (idx + 1) - curve_pos ! idx))))"

definition curve_resistance_at ::
  "real list \<Rightarrow> real list \<Rightarrow> real \<Rightarrow> real \<Rightarrow> real \<Rightarrow> py_error + real option"
where
  "curve_resistance_at curve_pos curve_radius train_length train_mass xp =
     (let pos0 = xp - train_length; pos1 = xp;
          intv = inkl_intv curve_pos pos0 pos1
      in if length intv = 1 then
           (case np_get curve_radius (int (intv ! 0)) of
              Inl e \<Rightarrow> Inl e
            | Inr r \<Rightarrow>
                if r < 300 then Inr (Some (4.91 / (r - 30) * train_mass))
                else Inr (Some (6.3 / (r - 55) * train_mass)))
         else if length intv > 1 then
           (case curve_loop curve_pos curve_radius train_mass pos0 pos1 (length intv) 0 intv 0 of
              Inl e \<Rightarrow> Inl e
            | Inr curve_force \<Rightarrow> Inr (Some curve_force))
         else Inr None)"


subsection \<open>Step count and allocation, shared by both integrators\<close>

text \<open>
  \<^verbatim>\<open>n_steps = int(distance // dt) + 1\<close>, then \<^verbatim>\<open>np.zeros(n_steps)\<close>, then the store into
  index 0. Floor division by zero raises \<^verbatim>\<open>ZeroDivisionError\<close>, a negative dimension
  raises \<^verbatim>\<open>ValueError\<close>, and the store into index 0 of an empty array raises
  \<^verbatim>\<open>IndexError\<close>.
\<close>

definition alloc_steps :: "real \<Rightarrow> real \<Rightarrow> py_error + nat" where
  "alloc_steps distance dt =
     (if dt = 0 then Inl ZeroDivisionError
      else (let n_steps = \<lfloor>distance / dt\<rfloor> + 1
            in if n_steps < 0 then Inl ValueError
               else if n_steps = 0 then Inl IndexError
               else Inr (nat n_steps)))"

subsection \<open>Acceleration integrator (\<^verbatim>\<open>acceleration.py\<close>)\<close>

record TrainConfig =
  mass_kg :: real
  tractive_effort_n :: real
  train_type :: string

text \<open>The module constant \<^verbatim>\<open>g = 9.81\<close>.\<close>

definition g :: real where
  "g = 9.81"

text \<open>The arguments of \<^verbatim>\<open>calculate_acceleration_profile\<close>, in the order of its signature.\<close>

record acc_args =
  a_train_config :: TrainConfig
  a_slope_percent :: real
  a_distance :: real
  a_v_max :: real
  a_dt :: real
  a_A :: real
  a_B :: real
  a_C :: real
  a_adhesion_coef :: real
  a_tunnel_factor :: real
  a_curve_resistance :: real
  a_max_acc :: real

text \<open>The four arrays \<^verbatim>\<open>s\<close>, \<^verbatim>\<open>v\<close>, \<^verbatim>\<open>a\<close>, \<^verbatim>\<open>F_trac\<close>, returned under the keys
  \<^verbatim>\<open>distance\<close>, \<^verbatim>\<open>speed\<close>, \<^verbatim>\<open>acceleration\<close>, \<^verbatim>\<open>tractive_effort\<close>.\<close>

record acc_profile =
  acc_distance :: "real list"
  acc_speed :: "real list"
  acc_acceleration :: "real list"
  acc_tractive_effort :: "real list"

text \<open>
  One pass of the loop body up to the stores into index \<open>i\<close>. The quotient
  \<^verbatim>\<open>F_net / mass\<close> is a numpy division: for \<open>mass = 0\<close> the source yields an IEEE infinity
  or NaN (no exception), which the model does not represent.
\<close>

definition accel_step :: "acc_args \<Rightarrow> nat \<Rightarrow> acc_profile \<Rightarrow> acc_profile" where
  "accel_step P i st =
     (let mass = mass_kg (a_train_config P);
          tractive_effort = tractive_effort_n (a_train_config P);
          v_prev = acc_speed st ! (i - 1);
          F_res = a_A P + a_B P * v_prev + a_C P * v_prev ^ 2;
          F_slope = mass * g * (a_slope_percent P / 100);
          F_tunnel = a_tunnel_factor P * v_prev ^ 2;
          F_curve = a_curve_resistance P;
          F_total_res = F_res + F_slope + F_tunnel + F_curve;
          F_adhesion = a_adhesion_coef P * mass * g;
          F_trac_i = min tractive_effort F_adhesion;
          F_net = F_trac_i - F_total_res;
          a_i = min (max (F_net / mass) (- a_max_acc P)) (a_max_acc P);
          v_i = max 0 (min (v_prev + a_i * a_dt P) (a_v_max P));
          s_i = acc_distance st ! (i - 1) + v_i * a_dt P
      in \<lparr> acc_distance = (acc_distance st)[i := s_i],
           acc_speed = (acc_speed st)[i := v_i],
           acc_acceleration = (acc_acceleration st)[i := a_i],
           acc_tractive_effort = (acc_tractive_effort st)[i := F_trac_i] \<rparr>)"

text \<open>The slices \<^verbatim>\<open>s[:i+1]\<close>, \<^verbatim>\<open>v[:i+1]\<close>, \<^verbatim>\<open>a[:i+1]\<close>, \<^verbatim>\<open>F_trac[:i+1]\<close>.\<close>

definition acc_truncate :: "nat \<Rightarrow> acc_profile \<Rightarrow> acc_profile" where
  "acc_truncate m st =
     \<lparr> acc_distance = take m (acc_distance st),
       acc_speed = take m (acc_speed st),
       acc_acceleration = take m (acc_acceleration st),
       acc_tractive_effort = take m (acc_tractive_effort st) \<rparr>"

text \<open>\<^verbatim>\<open>for i in range(1, n_steps)\<close> with its \<^verbatim>\<open>break\<close>.\<close>

function accel_loop :: "acc_args \<Rightarrow> nat \<Rightarrow> nat \<Rightarrow> acc_profile \<Rightarrow> acc_profile" where
  "accel_loop P n_steps i st =
     (if i < n_steps then
        (let st' = accel_step P i st
         in if acc_distance st' ! i \<ge> a_distance P then acc_truncate (i + 1) st'
            else accel_loop P n_steps (i + 1) st')
      else st)"
  by pat_completeness auto
termination
  by (relation "measure (\<lambda>(P, n_steps, i, st). n_steps - i)") auto

declare accel_loop.simps [simp del]

definition calculate_acceleration_profile :: "acc_args \<Rightarrow> py_error + acc_profile" where
  "calculate_acceleration_profile P =
     (case alloc_steps (a_distance P) (a_dt P) of
        Inl e \<Rightarrow> Inl e
      | Inr n_steps \<Rightarrow>
          Inr (accel_loop P n_steps 1
                 \<lparr> acc_distance = (replicate n_steps 0)[0 := 0],
                   acc_speed = (replicate n_steps 0)[0 := 0],
                   acc_acceleration = replicate n_steps 0,
                   acc_tractive_effort = replicate n_steps 0 \<rparr>))"

subsection \<open>Braking integrator (\<^verbatim>\<open>braking.py\<close>)\<close>

text \<open>The arguments of \<^verbatim>\<open>calculate_braking_profile\<close>; \<^verbatim>\<open>slope_profile=None\<close> is
  \<^term>\<open>None\<close>.\<close>

record brk_args =
  b_initial_speed :: real
  b_distance :: real
  b_slope_profile :: "real list option"
  b_deceleration_profile :: real
  b_min_dec :: real
  b_max_dec :: real
  b_dt :: real
  b_g :: real

text \<open>The arrays \<^verbatim>\<open>s\<close>, \<^verbatim>\<open>v\<close>, \<^verbatim>\<open>a\<close>, returned under the keys \<^verbatim>\<open>distance\<close>,
  \<^verbatim>\<open>speed\<close>, \<^verbatim>\<open>deceleration\<close>.\<close>

record brk_profile =
  brk_distance :: "real list"
  brk_speed :: "real list"
  brk_deceleration :: "real list"

text \<open>The loop body after the slope has been read, up to the stores into index \<open>i\<close>.\<close>

definition braking_step :: "brk_args \<Rightarrow> real \<Rightarrow> nat \<Rightarrow> brk_profile \<Rightarrow> brk_profile" where
  "braking_step P slope i st =
     (let dec0 = b_deceleration_profile P + b_g P * slope;
          dec = max (b_min_dec P) (min dec0 (b_max_dec P));
          v_prev = brk_speed st ! (i - 1);
          v1 = sqrt (max 0 (2 * dec + v_prev ^ 2));
          v2 = (v_prev + v1) / 2;
          v_i = max 0 (v_prev + dec * 1 / max v2 (1 / 1000000));
          s_i = brk_distance st ! (i - 1) + v_i * b_dt P
      in \<lparr> brk_distance = (brk_distance st)[i := s_i],
           brk_speed = (brk_speed st)[i := v_i],
           brk_deceleration = (brk_deceleration st)[i := dec] \<rparr>)"

definition brk_truncate :: "nat \<Rightarrow> brk_profile \<Rightarrow> brk_profile" where
  "brk_truncate m st =
     \<lparr> brk_distance = take m (brk_distance st),
       brk_speed = take m (brk_speed st),
       brk_deceleration = take m (brk_deceleration st) \<rparr>"

text \<open>\<^verbatim>\<open>slope_profile[i-1] if slope_profile is not None else 0.0\<close>\<close>

definition read_slope :: "real list option \<Rightarrow> nat \<Rightarrow> py_error + real" where
  "read_slope slope_profile i =
     (case slope_profile of
        None \<Rightarrow> Inr 0
      | Some sp \<Rightarrow> np_get sp (int i - 1))"

text \<open>\<^verbatim>\<open>for i in range(1, n_steps)\<close> with its \<^verbatim>\<open>break\<close>; an exception leaves the loop
  and the call.\<close>

function braking_loop ::
  "brk_args \<Rightarrow> nat \<Rightarrow> nat \<Rightarrow> brk_profile \<Rightarrow> py_error + brk_profile"
where
  "braking_loop P n_steps i st =
     (if i < n_steps then
        (case read_slope (b_slope_profile P) i of
           Inl e \<Rightarrow> Inl e
         | Inr slope \<Rightarrow>
             (let st' = braking_step P slope i st
              in if brk_speed st' ! i \<le> 0 \<or> brk_distance st' ! i \<ge> b_distance P
                 then Inr (brk_truncate (i + 1) st')
                 else braking_loop P n_steps (i + 1) st'))
      else Inr st)"
  by pat_completeness auto
termination
  by (relation "measure (\<lambda>(P, n_steps, i, st). n_steps - i)") auto

declare braking_loop.simps [simp del]

definition calculate_braking_profile :: "brk_args \<Rightarrow> py_error + brk_profile" where
  "calculate_braking_profile P =
     (case alloc_steps (b_distance P) (b_dt P) of
        Inl e \<Rightarrow> Inl e
      | Inr n_steps \<Rightarrow>
          braking_loop P n_steps 1
            \<lparr> brk_distance = (replicate n_steps 0)[0 := 0],
              brk_speed = (replicate n_steps 0)[0 := b_initial_speed P],
              brk_deceleration = replicate n_steps 0 \<rparr>)"

subsection \<open>Block occupancy (\<^verbatim>\<open>block_occupancy.py\<close>)\<close>

text \<open>Python's \<^verbatim>\<open>round\<close> on a float (ties go to the even integer) and \<^verbatim>\<open>int\<close> on a
  number (truncation towards zero).\<close>

definition py_round :: "real \<Rightarrow> int" where
  "py_round x =
     (let f = \<lfloor>x\<rfloor>; d = x - of_int f
      in if d < 1 / 2 then f else if d > 1 / 2 then f + 1 else if even f then f else f + 1)"

definition py_int :: "real \<Rightarrow> int" where
  "py_int x = (if x \<ge> 0 then \<lfloor>x\<rfloor> else \<lceil>x\<rceil>)"

text \<open>One row of \<^verbatim>\<open>mb_times\<close>: columns 0 to 4. A cell left at, or set to, NaN is
  \<^term>\<open>None\<close>.\<close>

record mb_row =
  mb_speed_diff :: "real option"
  mb_index :: "real option"
  mb_booking :: "real option"
  mb_arrival :: "real option"
  mb_release :: "real option"

definition bind_err :: "py_error + 'a \<Rightarrow> ('a \<Rightarrow> py_error + 'b) \<Rightarrow> py_error + 'b" where
  "bind_err r f = (case r of Inl e \<Rightarrow> Inl e | Inr x \<Rightarrow> f x)"

text \<open>The arguments of \<^verbatim>\<open>calculate_block_occupancy\<close> other than \<^verbatim>\<open>block_positions\<close>
  (already converted by \<^verbatim>\<open>np.asarray(..., dtype=int)\<close>) and the unused
  \<^verbatim>\<open>position_profile\<close>.\<close>

record occ_args =
  o_speed_profile :: "real list"
  o_time_profile :: "real list"
  o_release_speed :: "real list"
  o_train_length :: real
  o_overlap :: "real list"
  o_release_time :: "real list"
  o_setting_time :: "real list"
  o_reserve_before_arrival :: real
  o_v_tol :: real

text \<open>The three parts of the loop body for block \<open>k\<close> at position \<open>bp\<close>: the booking
  columns 0 to 2, the arrival column 3 and the release column 4. Positions and indices are
  unbounded integers; the wrap-around of \<^verbatim>\<open>np.int64\<close> at \<open>2 ^ 63\<close> is outside the model.\<close>

definition occ_booking ::
  "occ_args \<Rightarrow> nat \<Rightarrow> int \<Rightarrow> py_error + (real option \<times> real option \<times> real option)"
where
  "occ_booking Q k bp =
     bind_err (np_get (o_release_speed Q) (int k)) (\<lambda>rs.
       let speed_diff = map (\<lambda>x. \<bar>x - rs\<bar>) (o_speed_profile Q);
           idx = filter (\<lambda>j. speed_diff ! j \<le> o_v_tol Q) [0..<length speed_diff]
       in if length idx = 0 then
            (if bp < int (length (o_time_profile Q)) then
               bind_err (np_get (o_time_profile Q) bp) (\<lambda>t.
                 Inr (None, None, Some (t - o_reserve_before_arrival Q)))
             else Inr (None, None, None))
          else
            (let b = idx ! 0
             in bind_err (np_get (o_time_profile Q) (int b)) (\<lambda>t.
                bind_err (np_get (o_setting_time Q) (int k)) (\<lambda>st.
                  Inr (Some (speed_diff ! b), Some (real b), Some (t - st))))))"

definition occ_arrival :: "occ_args \<Rightarrow> int \<Rightarrow> py_error + real option" where
  "occ_arrival Q bp =
     (if bp < int (length (o_time_profile Q)) then
        bind_err (np_get (o_time_profile Q) bp) (\<lambda>t. Inr (Some t))
      else Inr None)"

definition occ_release :: "occ_args \<Rightarrow> nat \<Rightarrow> int \<Rightarrow> py_error + real option" where
  "occ_release Q k bp =
     bind_err (np_get (o_overlap Q) (int k)) (\<lambda>ov.
       let release_idx = bp + py_round (o_train_length Q) + py_int ov
       in if release_idx < int (length (o_time_profile Q)) then
            bind_err (np_get (o_time_profile Q) release_idx) (\<lambda>t.
            bind_err (np_get (o_release_time Q) (int k)) (\<lambda>rt.
              Inr (Some (t + rt))))
          else Inr None)"

definition occ_row :: "occ_args \<Rightarrow> nat \<Rightarrow> int \<Rightarrow> py_error + mb_row" where
  "occ_row Q k bp =
     bind_err (occ_booking Q k bp) (\<lambda>(c0, c1, c2).
     bind_err (occ_arrival Q bp) (\<lambda>c3.
     bind_err (occ_release Q k bp) (\<lambda>c4.
       Inr \<lparr> mb_speed_diff = c0, mb_index = c1, mb_booking = c2,
             mb_arrival = c3, mb_release = c4 \<rparr>)))"

text \<open>\<^verbatim>\<open>for k, bp in enumerate(block_positions)\<close>\<close>

definition calculate_block_occupancy :: "int list \<Rightarrow> occ_args \<Rightarrow> py_error + mb_row list" where
  "calculate_block_occupancy block_positions Q =
     collect (map (\<lambda>(k, bp). occ_row Q k bp) (enumerate 0 block_positions))"

section \<open>Auxiliary definitions for the statements\<close>

text \<open>All four arrays have length \<open>n\<close>.\<close>

definition acc_lens :: "nat \<Rightarrow> acc_profile \<Rightarrow> bool" where
  "acc_lens n st \<longleftrightarrow>
     length (acc_distance st) = n \<and> length (acc_speed st) = n \<and>
     length (acc_acceleration st) = n \<and> length (acc_tractive_effort st) = n"

text \<open>The arrays as allocated, after the two stores into index 0.\<close>

definition acc_init :: "nat \<Rightarrow> acc_profile" where
  "acc_init n_steps =
     \<lparr> acc_distance = (replicate n_steps 0)[0 := 0],
       acc_speed = (replicate n_steps 0)[0 := 0],
       acc_acceleration = replicate n_steps 0,
       acc_tractive_effort = replicate n_steps 0 \<rparr>"

text \<open>The state after the loop bodies \<open>1, \<dots>, k\<close> with the \<^verbatim>\<open>break\<close> ignored: the
  untruncated profile.\<close>

fun accel_run :: "acc_args \<Rightarrow> nat \<Rightarrow> acc_profile \<Rightarrow> acc_profile" where
  "accel_run P 0 st = st"
| "accel_run P (Suc k) st = accel_step P (Suc k) (accel_run P k st)"

text \<open>The inputs of \<^verbatim>\<open>test_acceleration_profile\<close>, over a distance of three metres.\<close>

definition acc_example :: acc_args where
  "acc_example =
     \<lparr> a_train_config = \<lparr> mass_kg = 50000, tractive_effort_n = 200000, train_type = ''test'' \<rparr>,
       a_slope_percent = 1, a_distance = 3, a_v_max = 55, a_dt = 1,
       a_A = 1500, a_B = 2.5, a_C = 0.008, a_adhesion_coef = 0.25,
       a_tunnel_factor = 0, a_curve_resistance = 1000, a_max_acc = 1 \<rparr>"

definition acc_example_result :: acc_profile where
  "acc_example_result =
     \<lparr> acc_distance = [0, 1, 3], acc_speed = [0, 1, 2],
       acc_acceleration = [0, 1, 1], acc_tractive_effort = [0, 122625, 122625] \<rparr>"

text \<open>Index 0 of every array holds 0, at loop position \<open>i > 0\<close>.\<close>

definition acc_head0 :: "nat \<Rightarrow> nat \<Rightarrow> acc_profile \<Rightarrow> bool" where
  "acc_head0 n i st \<longleftrightarrow>
     acc_lens n st \<and> 0 < i \<and> acc_distance st ! 0 = 0 \<and> acc_speed st ! 0 = 0 \<and>
     acc_acceleration st ! 0 = 0 \<and> acc_tractive_effort st ! 0 = 0"

text \<open>The invariant of the loop at position \<open>i\<close>: every speed cell lies in \<open>[0, v_max]\<close>
  and the distance cells written so far are in non-decreasing order.\<close>

definition acc_bounded :: "acc_args \<Rightarrow> nat \<Rightarrow> nat \<Rightarrow> acc_profile \<Rightarrow> bool" where
  "acc_bounded P n i st \<longleftrightarrow>
     acc_lens n st \<and> 0 < i \<and> i \<le> n \<and>
     list_all (\<lambda>x. 0 \<le> x \<and> x \<le> a_v_max P) (acc_speed st) \<and>
     sorted (take i (acc_distance st))"

text \<open>The requested step count \<open>floor(distance / dt) + 1\<close> and the full, untruncated
  profile of that many entries.\<close>

definition acc_n_steps :: "acc_args \<Rightarrow> nat" where
  "acc_n_steps P = nat (\<lfloor>a_distance P / a_dt P\<rfloor> + 1)"

definition acc_full :: "acc_args \<Rightarrow> acc_profile" where
  "acc_full P = accel_run P (acc_n_steps P - 1) (acc_init (acc_n_steps P))"

text \<open>The example with the speed capped at 0.5 m/s: the distance of three metres is not
  reached within the requested four steps.\<close>

definition acc_example_slow :: acc_args where
  "acc_example_slow = acc_example \<lparr> a_v_max := 1 / 2 \<rparr>"

text \<open>All three arrays of a braking profile have length \<open>n\<close>.\<close>

definition brk_lens :: "nat \<Rightarrow> brk_profile \<Rightarrow> bool" where
  "brk_lens n st \<longleftrightarrow>
     length (brk_distance st) = n \<and> length (brk_speed st) = n \<and>
     length (brk_deceleration st) = n"

text \<open>The arrays as allocated, after the two stores into index 0.\<close>

definition brk_init :: "brk_args \<Rightarrow> nat \<Rightarrow> brk_profile" where
  "brk_init P n_steps =
     \<lparr> brk_distance = (replicate n_steps 0)[0 := 0],
       brk_speed = (replicate n_steps 0)[0 := b_initial_speed P],
       brk_deceleration = replicate n_steps 0 \<rparr>"

text \<open>The stopping test of the braking loop at step \<open>i\<close>.\<close>

definition brk_stop :: "brk_args \<Rightarrow> nat \<Rightarrow> brk_profile \<Rightarrow> bool" where
  "brk_stop P i st \<longleftrightarrow> brk_speed st ! i \<le> 0 \<or> brk_distance st ! i \<ge> b_distance P"

text \<open>The invariant of the braking loop at position \<open>i\<close>: the speed cells written so far
  are non-negative and in non-increasing order.\<close>

definition brk_decaying :: "nat \<Rightarrow> nat \<Rightarrow> brk_profile \<Rightarrow> bool" where
  "brk_decaying n i st \<longleftrightarrow>
     brk_lens n st \<and> 0 < i \<and> i \<le> n \<and>
     list_all (\<lambda>x. 0 \<le> x) (take i (brk_speed st)) \<and>
     sorted (rev (take i (brk_speed st)))"

text \<open>Braking from 1.5 m/s with the default deceleration parameters and no slope profile,
  over 5 metres (the train stops first) and over 1 metre (the step count runs out first).\<close>

definition brk_example :: brk_args where
  "brk_example =
     \<lparr> b_initial_speed = 3 / 2, b_distance = 5, b_slope_profile = None,
       b_deceleration_profile = - 1, b_min_dec = - 1.2, b_max_dec = - 0.5,
       b_dt = 1, b_g = 9.81 \<rparr>"

definition brk_example_short :: brk_args where
  "brk_example_short = brk_example \<lparr> b_distance := 1 \<rparr>"

text \<open>Braking from 3 m/s over 2 metres at a nominal deceleration of 2.5 within the bounds
  \<open>[-4, -0.5]\<close>: the distance is reached in the first step.\<close>

definition brk_example_far :: brk_args where
  "brk_example_far =
     \<lparr> b_initial_speed = 3, b_distance = 2, b_slope_profile = None,
       b_deceleration_profile = - 2.5, b_min_dec = - 4, b_max_dec = - 0.5,
       b_dt = 1, b_g = 9.81 \<rparr>"

definition brk_example_result :: brk_profile where
  "brk_example_result =
     \<lparr> brk_distance = [0, 1 / 2, 1 / 2], brk_speed = [3 / 2, 1 / 2, 0],
       brk_deceleration = [0, - 1, - 1] \<rparr>"

definition brk_example_short_result :: brk_profile where
  "brk_example_short_result =
     \<lparr> brk_distance = [0, 1 / 2], brk_speed = [3 / 2, 1 / 2], brk_deceleration = [0, - 1] \<rparr>"

definition brk_example_far_result :: brk_profile where
  "brk_example_far_result =
     \<lparr> brk_distance = [0, 2], brk_speed = [3, 2], brk_deceleration = [0, - 5 / 2] \<rparr>"

text \<open>The braking example with a slope profile of level track: one entry, two entries.\<close>

definition brk_example_sloped :: "real list \<Rightarrow> brk_args" where
  "brk_example_sloped sp = brk_example \<lparr> b_slope_profile := Some sp \<rparr>"

text \<open>Calls with invalid physics parameters: a braking call whose \<open>min_dec\<close> is positive
  and above \<open>max_dec\<close>, and an acceleration call with no tractive effort.\<close>

definition brk_example_invalid :: brk_args where
  "brk_example_invalid =
     \<lparr> b_initial_speed = 1, b_distance = 3, b_slope_profile = None,
       b_deceleration_profile = - 1, b_min_dec = 4, b_max_dec = - 0.5,
       b_dt = 1, b_g = 9.81 \<rparr>"

definition brk_example_invalid_result :: brk_profile where
  "brk_example_invalid_result =
     \<lparr> brk_distance = [0, 3], brk_speed = [1, 3], brk_deceleration = [0, 4] \<rparr>"

definition acc_example_invalid :: acc_args where
  "acc_example_invalid =
     \<lparr> a_train_config = \<lparr> mass_kg = 50000, tractive_effort_n = 0, train_type = ''test'' \<rparr>,
       a_slope_percent = 1, a_distance = 1, a_v_max = 55, a_dt = 1,
       a_A = 1500, a_B = 2.5, a_C = 0.008, a_adhesion_coef = 0.25,
       a_tunnel_factor = 0, a_curve_resistance = 1000, a_max_acc = 1 \<rparr>"

definition acc_example_invalid_result :: acc_profile where
  "acc_example_invalid_result =
     \<lparr> acc_distance = [0, 0], acc_speed = [0, 0],
       acc_acceleration = [0, - 0.1481], acc_tractive_effort = [0, 0] \<rparr>"

text \<open>The profile and block parameters of \<^verbatim>\<open>test_block_occupancy\<close>, for a single block.\<close>

definition occ_example :: occ_args where
  "occ_example =
     \<lparr> o_speed_profile = [10, 20, 30, 40, 50, 60, 70],
       o_time_profile = [0, 1, 2, 3, 4, 5, 6],
       o_release_speed = [10], o_train_length = 1, o_overlap = [1],
       o_release_time = [1], o_setting_time = [1],
       o_reserve_before_arrival = 1, o_v_tol = 0.1 \<rparr>"

text \<open>
  The statements about the two resistance calculators, in the words of the
  specification. The overlap condition of interval \<open>j\<close> against the occupied span
  \<open>[start, end]\<close>:
\<close>

definition overlaps :: "real list \<Rightarrow> real \<Rightarrow> real \<Rightarrow> nat \<Rightarrow> bool" where
  "overlaps positions start end j \<longleftrightarrow> start < positions ! (j + 1) \<and> end \<ge> positions ! j"

text \<open>
  The sum over the overlapped intervals \<open>J\<close> (at least two) of a per-interval quantity
  \<open>f j\<close> times the length counted for the interval: the first interval clipped at
  \<open>start\<close>, the last clipped at \<open>end\<close>, the middle intervals in full.
\<close>

definition clipped_sum :: "(nat \<Rightarrow> real) \<Rightarrow> real list \<Rightarrow> real \<Rightarrow> real \<Rightarrow> nat list \<Rightarrow> real" where
  "clipped_sum f positions start end J =
     f (hd J) * (positions ! (hd J + 1) - start)
     + (\<Sum>j\<leftarrow>butlast (tl J). f j * (positions ! (j + 1) - positions ! j))
     + f (last J) * (end - positions ! last J)"

text \<open>The equivalent slope of the specification: the value of the single overlapped
  interval, the length-weighted average over several, undefined for none.\<close>

definition equivalent_slope_spec :: "real list \<Rightarrow> real list \<Rightarrow> real \<Rightarrow> real \<Rightarrow> real option" where
  "equivalent_slope_spec positions values start end =
     (let J = filter (overlaps positions start end) [0..<length values]
      in if length J = 1 then Some (values ! hd J)
         else if length J > 1 then
           Some (clipped_sum (\<lambda>j. values ! j) positions start end J / (end - start))
         else None)"

text \<open>A valid piecewise profile: strictly increasing breakpoints, one value per interval.\<close>

definition valid_profile :: "real list \<Rightarrow> real list \<Rightarrow> bool" where
  "valid_profile positions values \<longleftrightarrow>
     sorted_wrt (<) positions \<and> length values = length positions - 1"

text \<open>Roeckl's unit curve resistance for a radius \<open>r\<close>.\<close>

definition unit_resistance :: "real \<Rightarrow> real" where
  "unit_resistance r = (if r < 300 then 4.91 / (r - 30) else 6.3 / (r - 55))"

text \<open>The curve resistance as the specification words it: for several overlapped intervals
  the contributions \<open>unit_resistance(r) * mass_kg\<close> times the clipped lengths, summed and not
  divided by the occupied length.\<close>

definition curve_resistance_unnormalized ::
  "real list \<Rightarrow> real list \<Rightarrow> real \<Rightarrow> real \<Rightarrow> real \<Rightarrow> real option"
where
  "curve_resistance_unnormalized positions radii mass start end =
     (let J = filter (overlaps positions start end) [0..<length radii]
      in if length J = 1 then Some (unit_resistance (radii ! hd J) * mass)
         else if length J > 1 then
           Some (clipped_sum (\<lambda>j. unit_resistance (radii ! j) * mass) positions start end J)
         else None)"

text \<open>The curve resistance with every contribution divided by the occupied length
  \<open>end - start\<close>, as the equivalent slope is.\<close>

definition curve_resistance_spec ::
  "real list \<Rightarrow> real list \<Rightarrow> real \<Rightarrow> real \<Rightarrow> real \<Rightarrow> real option"
where
  "curve_resistance_spec positions radii mass start end =
     (let J = filter (overlaps positions start end) [0..<length radii]
      in if length J = 1 then Some (unit_resistance (radii ! hd J) * mass)
         else if length J > 1 then
           Some (clipped_sum (\<lambda>j. unit_resistance (radii ! j) * mass / (end - start))
                   positions start end J)
         else None)"


subsection \<open>The resistance calculators in double precision\<close>










section \<open>Acceleration integrator: properties\<close>

lemma accel_step_eval:
  assumes "v_prev = acc_speed st ! (i - 1)"
    and "F_total_res = a_A P + a_B P * v_prev + a_C P * v_prev ^ 2
           + mass_kg (a_train_config P) * g * (a_slope_percent P / 100)
           + a_tunnel_factor P * v_prev ^ 2 + a_curve_resistance P"
    and "F_trac_i = min (tractive_effort_n (a_train_config P))
           (a_adhesion_coef P * mass_kg (a_train_config P) * g)"
    and "a_i = min (max ((F_trac_i - F_total_res) / mass_kg (a_train_config P)) (- a_max_acc P))
           (a_max_acc P)"
    and "v_i = max 0 (min (v_prev + a_i * a_dt P) (a_v_max P))"
    and "s_i = acc_distance st ! (i - 1) + v_i * a_dt P"
  shows "accel_step P i st =
      \<lparr> acc_distance = (acc_distance st)[i := s_i],
        acc_speed = (acc_speed st)[i := v_i],
        acc_acceleration = (acc_acceleration st)[i := a_i],
        acc_tractive_effort = (acc_tractive_effort st)[i := F_trac_i] \<rparr>"
  unfolding accel_step_def Let_def assms by (rule refl)

lemma accel_step_shape:
  "\<exists>a_i F_i. accel_step P i st =
      \<lparr> acc_distance = (acc_distance st)[i := acc_distance st ! (i - 1)
            + max 0 (min (acc_speed st ! (i - 1) + a_i * a_dt P) (a_v_max P)) * a_dt P],
        acc_speed = (acc_speed st)[i := max 0 (min (acc_speed st ! (i - 1) + a_i * a_dt P) (a_v_max P))],
        acc_acceleration = (acc_acceleration st)[i := a_i],
        acc_tractive_effort = (acc_tractive_effort st)[i := F_i] \<rparr>"
  by (intro exI, rule accel_step_eval) (rule refl)+

lemma acc_lens_step: "acc_lens n st \<Longrightarrow> acc_lens n (accel_step P i st)"
  using accel_step_shape[of P i st] by (auto simp: acc_lens_def)

lemma accel_loop_end: "\<not> i < n \<Longrightarrow> accel_loop P n i st = st"
  by (subst accel_loop.simps) simp

lemma accel_loop_stop:
  "i < n \<Longrightarrow> a_distance P \<le> acc_distance (accel_step P i st) ! i \<Longrightarrow>
     accel_loop P n i st = acc_truncate (Suc i) (accel_step P i st)"
  by (subst accel_loop.simps) (simp add: Let_def)

lemma accel_loop_go:
  "i < n \<Longrightarrow> \<not> a_distance P \<le> acc_distance (accel_step P i st) ! i \<Longrightarrow>
     accel_loop P n i st = accel_loop P n (Suc i) (accel_step P i st)"
  by (subst accel_loop.simps) (simp add: Let_def)

text \<open>The loop either runs to the end of the range or breaks at some step \<open>m\<close>; a
  property that every continuing step carries forward holds where the loop leaves.\<close>

lemma accel_loop_cases:
  assumes "I i st" and "i \<le> n"
    and step: "\<And>j s. i \<le> j \<Longrightarrow> j < n \<Longrightarrow> I j s \<Longrightarrow>
                 \<not> a_distance P \<le> acc_distance (accel_step P j s) ! j \<Longrightarrow>
                 I (Suc j) (accel_step P j s)"
  shows "I n (accel_loop P n i st) \<or>
         (\<exists>m s. i \<le> m \<and> m < n \<and> I m s \<and>
                 a_distance P \<le> acc_distance (accel_step P m s) ! m \<and>
                 accel_loop P n i st = acc_truncate (Suc m) (accel_step P m s))"
  using assms
proof (induction P n i st rule: accel_loop.induct)
  case (1 P n_steps i st)
  show ?case
  proof (cases "i < n_steps")
    case False
    then have "i = n_steps" using "1.prems"(2) by simp
    with False "1.prems"(1) show ?thesis by (simp add: accel_loop_end)
  next
    case True
    let ?st' = "accel_step P i st"
    show ?thesis
    proof (cases "a_distance P \<le> acc_distance ?st' ! i")
      case stop: True
      have "accel_loop P n_steps i st = acc_truncate (Suc i) ?st'"
        using True stop by (rule accel_loop_stop)
      with True stop "1.prems"(1) show ?thesis by blast
    next
      case go: False
      have eq: "accel_loop P n_steps i st = accel_loop P n_steps (i + 1) ?st'"
        using accel_loop_go[OF True go] by simp
      have I': "I (i + 1) ?st'"
        using "1.prems"(3)[OF le_refl True "1.prems"(1) go] by simp
      have "I n_steps (accel_loop P n_steps (i + 1) ?st') \<or>
         (\<exists>m s. i + 1 \<le> m \<and> m < n_steps \<and> I m s \<and>
                 a_distance P \<le> acc_distance (accel_step P m s) ! m \<and>
                 accel_loop P n_steps (i + 1) ?st' = acc_truncate (Suc m) (accel_step P m s))"
      proof (rule "1.IH"[OF True refl go I'])
        show "i + 1 \<le> n_steps" using True by simp
        fix j s assume "i + 1 \<le> j" "j < n_steps" "I j s"
          "\<not> a_distance P \<le> acc_distance (accel_step P j s) ! j"
        then show "I (Suc j) (accel_step P j s)"
          using "1.prems"(3)[of j s] by simp
      qed
      then show ?thesis unfolding eq
        by (elim disjE exE conjE) (auto intro: Suc_leD)
    qed
  qed
qed

lemma calculate_acceleration_profile_eq:
  "calculate_acceleration_profile P =
     (case alloc_steps (a_distance P) (a_dt P) of
        Inl e \<Rightarrow> Inl e
      | Inr n_steps \<Rightarrow> Inr (accel_loop P n_steps 1 (acc_init n_steps)))"
  unfolding calculate_acceleration_profile_def acc_init_def ..

lemma alloc_steps_pos: "alloc_steps d dt = Inr n \<Longrightarrow> 0 < n"
  by (auto simp: alloc_steps_def Let_def split: if_splits)

lemma acc_lens_init: "acc_lens n (acc_init n)"
  by (simp add: acc_lens_def acc_init_def)

lemma acc_example_fields:
  "mass_kg (a_train_config acc_example) = 50000"
  "tractive_effort_n (a_train_config acc_example) = 200000"
  "a_slope_percent acc_example = 1" "a_distance acc_example = 3"
  "a_v_max acc_example = 55" "a_dt acc_example = 1" "a_A acc_example = 1500"
  "a_B acc_example = 2.5" "a_C acc_example = 0.008" "a_adhesion_coef acc_example = 0.25"
  "a_tunnel_factor acc_example = 0" "a_curve_resistance acc_example = 1000"
  "a_max_acc acc_example = 1"
  by (simp_all add: acc_example_def)

lemma acc_example_alloc: "alloc_steps (a_distance acc_example) (a_dt acc_example) = Inr 4"
  by (simp add: alloc_steps_def acc_example_fields)

lemma acc_init_4:
  "acc_init 4 = \<lparr> acc_distance = [0, 0, 0, 0], acc_speed = [0, 0, 0, 0],
       acc_acceleration = [0, 0, 0, 0], acc_tractive_effort = [0, 0, 0, 0] \<rparr>"
  by (simp add: acc_init_def eval_nat_numeral)

lemma acc_example_step1:
  "accel_step acc_example 1 (acc_init 4)
   = \<lparr> acc_distance = [0, 1, 0, 0], acc_speed = [0, 1, 0, 0],
       acc_acceleration = [0, 1, 0, 0], acc_tractive_effort = [0, 122625, 0, 0] \<rparr>"
  unfolding acc_init_4
  by (subst accel_step_eval[where v_prev = 0 and F_total_res = 7405 and F_trac_i = 122625
        and a_i = 1 and v_i = 1 and s_i = 1])
     (simp_all add: acc_example_fields g_def)

lemma acc_example_step2:
  "accel_step acc_example 2 \<lparr> acc_distance = [0, 1, 0, 0], acc_speed = [0, 1, 0, 0],
       acc_acceleration = [0, 1, 0, 0], acc_tractive_effort = [0, 122625, 0, 0] \<rparr>
   = \<lparr> acc_distance = [0, 1, 3, 0], acc_speed = [0, 1, 2, 0],
       acc_acceleration = [0, 1, 1, 0], acc_tractive_effort = [0, 122625, 122625, 0] \<rparr>"
  by (subst accel_step_eval[where v_prev = 1 and F_total_res = "7407.508" and F_trac_i = 122625
        and a_i = 1 and v_i = 2 and s_i = 3])
     (simp_all add: acc_example_fields g_def)

lemma acc_example_run: "calculate_acceleration_profile acc_example = Inr acc_example_result"
proof -
  let ?st1 = "\<lparr> acc_distance = [0, 1, 0, 0], acc_speed = [0, 1, 0, 0],
       acc_acceleration = [0, 1, 0, 0], acc_tractive_effort = [0, 122625, 0, (0::real)] \<rparr>"
  have "accel_loop acc_example 4 1 (acc_init 4) =
          accel_loop acc_example 4 (Suc 1) (accel_step acc_example 1 (acc_init 4))"
  proof (rule accel_loop_go)
    show "(1::nat) < 4" by simp
    show "\<not> a_distance acc_example \<le> acc_distance (accel_step acc_example 1 (acc_init 4)) ! 1"
      unfolding acc_example_step1 by (simp add: acc_example_fields)
  qed
  then have 1: "accel_loop acc_example 4 1 (acc_init 4) = accel_loop acc_example 4 2 ?st1"
    unfolding acc_example_step1 by (simp only: Suc_1)
  have "accel_loop acc_example 4 2 ?st1 = acc_truncate (Suc 2) (accel_step acc_example 2 ?st1)"
  proof (rule accel_loop_stop)
    show "(2::nat) < 4" by simp
    show "a_distance acc_example \<le> acc_distance (accel_step acc_example 2 ?st1) ! 2"
      unfolding acc_example_step2 by (simp add: acc_example_fields)
  qed
  then have 2: "accel_loop acc_example 4 2 ?st1 = acc_example_result"
    unfolding acc_example_step2 by (simp add: acc_truncate_def acc_example_result_def)
  show ?thesis
    unfolding calculate_acceleration_profile_eq acc_example_alloc
    by (simp only: 1 2 sum.case)
qed

lemma accel_step_nth_other:
  "j \<noteq> i \<Longrightarrow>
     acc_distance (accel_step P i st) ! j = acc_distance st ! j \<and>
     acc_speed (accel_step P i st) ! j = acc_speed st ! j \<and>
     acc_acceleration (accel_step P i st) ! j = acc_acceleration st ! j \<and>
     acc_tractive_effort (accel_step P i st) ! j = acc_tractive_effort st ! j"
  using accel_step_shape[of P i st] by auto

lemma acc_head0_step: "acc_head0 n j s \<Longrightarrow> acc_head0 n (Suc j) (accel_step P j s)"
  using accel_step_nth_other[of 0 j P s] by (simp add: acc_head0_def acc_lens_step)

lemma acc_head0_truncate:
  "acc_head0 n j s \<Longrightarrow> j \<le> n \<Longrightarrow> acc_head0 j j (acc_truncate j s)"
  by (auto simp: acc_head0_def acc_lens_def acc_truncate_def)

text \<open>
  Claim C10. Whenever the acceleration integrator returns, each of the four returned arrays
  is non-empty and holds 0 at index 0: \<^verbatim>\<open>distance\<close> and \<^verbatim>\<open>speed\<close> by the initial
  stores, \<^verbatim>\<open>acceleration\<close> and \<^verbatim>\<open>tractive_effort\<close> because the loop starts at step 1
  and never writes index 0 of the zero-filled arrays.
\<close>

theorem acc_index0_zero:
  assumes "calculate_acceleration_profile P = Inr prof"
  shows "np_get (acc_distance prof) 0 = Inr 0 \<and> np_get (acc_speed prof) 0 = Inr 0 \<and>
         np_get (acc_acceleration prof) 0 = Inr 0 \<and> np_get (acc_tractive_effort prof) 0 = Inr 0"
proof -
  from assms obtain n where n: "alloc_steps (a_distance P) (a_dt P) = Inr n"
    and prof: "prof = accel_loop P n 1 (acc_init n)"
    by (auto simp: calculate_acceleration_profile_eq split: sum.splits)
  have pos: "0 < n" using n by (rule alloc_steps_pos)
  have init: "acc_head0 n 1 (acc_init n)"
    using pos by (simp add: acc_head0_def acc_lens_init) (simp add: acc_init_def)
  have "acc_head0 n n prof \<or>
         (\<exists>m s. 1 \<le> m \<and> m < n \<and> acc_head0 n m s \<and>
                 a_distance P \<le> acc_distance (accel_step P m s) ! m \<and>
                 prof = acc_truncate (Suc m) (accel_step P m s))"
    unfolding prof
    by (rule accel_loop_cases[where I = "acc_head0 n"]) (use pos init in \<open>auto intro: acc_head0_step\<close>)
  then have "\<exists>k. acc_head0 k k prof"
    using acc_head0_truncate[OF acc_head0_step] by (metis Suc_leI)
  then show ?thesis
    by (auto simp: acc_head0_def acc_lens_def np_get_def)
qed

text \<open>The claim at the example run, which breaks at step 2 of a requested 4.\<close>

theorem acc_index0_zero_witness:
  "calculate_acceleration_profile acc_example = Inr acc_example_result \<and>
   np_get (acc_distance acc_example_result) 0 = Inr 0 \<and>
   np_get (acc_speed acc_example_result) 0 = Inr 0 \<and>
   np_get (acc_acceleration acc_example_result) 0 = Inr 0 \<and>
   np_get (acc_tractive_effort acc_example_result) 0 = Inr 0"
  using acc_index0_zero[OF acc_example_run] acc_example_run by simp

lemma sorted_take_snoc:
  fixes d :: "real list"
  assumes "sorted (take i d)" "0 < i" "i < length d" "d ! (i - 1) \<le> y"
  shows "sorted (take (Suc i) (d[i := y]))"
proof -
  have eq: "take (Suc i) (d[i := y]) = take i d @ [y]"
    using assms(3) by (simp add: take_Suc_conv_app_nth)
  have "x \<le> y" if "x \<in> set (take i d)" for x
  proof -
    from that obtain k where k: "k < length (take i d)" "x = take i d ! k"
      by (auto simp: in_set_conv_nth)
    have last: "take i d ! (i - 1) = d ! (i - 1)" using assms(2) by simp
    have "take i d ! k \<le> take i d ! (i - 1)"
      using assms(1) k(1) assms(2,3) by (intro sorted_nth_mono) auto
    with k last assms(4) show ?thesis by simp
  qed
  with assms(1) show ?thesis unfolding eq by (simp add: sorted_append)
qed

lemma acc_bounded_step:
  assumes "acc_bounded P n j s" "j < n" "0 < a_dt P" "0 \<le> a_v_max P"
  shows "acc_bounded P n (Suc j) (accel_step P j s)"
proof -
  from accel_step_shape[of P j s] obtain a_i F_i where
    st: "accel_step P j s =
      \<lparr> acc_distance = (acc_distance s)[j := acc_distance s ! (j - 1)
            + max 0 (min (acc_speed s ! (j - 1) + a_i * a_dt P) (a_v_max P)) * a_dt P],
        acc_speed = (acc_speed s)[j := max 0 (min (acc_speed s ! (j - 1) + a_i * a_dt P) (a_v_max P))],
        acc_acceleration = (acc_acceleration s)[j := a_i],
        acc_tractive_effort = (acc_tractive_effort s)[j := F_i] \<rparr>"
    by blast
  let ?v = "max 0 (min (acc_speed s ! (j - 1) + a_i * a_dt P) (a_v_max P))"
  have v: "0 \<le> ?v \<and> ?v \<le> a_v_max P" using assms(4) by simp
  have lens: "acc_lens n s" and j: "0 < j"
    and sp: "list_all (\<lambda>x. 0 \<le> x \<and> x \<le> a_v_max P) (acc_speed s)"
    and so: "sorted (take j (acc_distance s))"
    using assms(1) by (auto simp: acc_bounded_def)
  have len: "length (acc_distance s) = n" using lens by (simp add: acc_lens_def)
  have "list_all (\<lambda>x. 0 \<le> x \<and> x \<le> a_v_max P) ((acc_speed s)[j := ?v])"
    using sp v unfolding list_all_iff by (metis insert_iff set_update_subset_insert subsetD)
  moreover have "sorted (take (Suc j) ((acc_distance s)[j := acc_distance s ! (j - 1) + ?v * a_dt P]))"
  proof (rule sorted_take_snoc[OF so j])
    show "j < length (acc_distance s)" using len assms(2) by simp
    have "0 \<le> ?v * a_dt P" using v assms(3) by (intro mult_nonneg_nonneg) auto
    then show "acc_distance s ! (j - 1) \<le> acc_distance s ! (j - 1) + ?v * a_dt P" by simp
  qed
  moreover have "acc_lens n (accel_step P j s)" using lens by (rule acc_lens_step)
  ultimately show ?thesis
    using assms(2) unfolding acc_bounded_def st by simp
qed

lemma acc_bounded_init:
  "0 < n \<Longrightarrow> 0 \<le> a_v_max P \<Longrightarrow> acc_bounded P n 1 (acc_init n)"
  by (cases n) (simp_all add: acc_bounded_def acc_lens_init, simp_all add: acc_init_def list_all_iff)

lemma acc_bounded_result:
  assumes "acc_bounded P n k st" "k \<le> n"
  shows "list_all (\<lambda>x. 0 \<le> x \<and> x \<le> a_v_max P) (acc_speed (acc_truncate k st)) \<and>
         sorted (acc_distance (acc_truncate k st))"
  using assms unfolding acc_bounded_def acc_truncate_def list_all_iff
  by (auto dest: in_set_takeD)

lemma acc_truncate_full: "acc_lens n st \<Longrightarrow> acc_truncate n st = st"
  by (simp add: acc_truncate_def acc_lens_def)

text \<open>
  Claim C7. For every call with \<open>dt > 0\<close> and \<open>v_max \<ge> 0\<close> (and a positive mass) that
  returns a profile, every produced speed entry lies in \<open>[0, v_max]\<close> and the produced
  distance array is non-decreasing.
\<close>

theorem acc_speed_in_range_distance_sorted:
  assumes "calculate_acceleration_profile P = Inr prof"
    and "0 < mass_kg (a_train_config P)" and "0 < a_dt P" and "0 \<le> a_v_max P"
  shows "list_all (\<lambda>x. 0 \<le> x \<and> x \<le> a_v_max P) (acc_speed prof) \<and> sorted (acc_distance prof)"
proof -
  from assms(1) obtain n where n: "alloc_steps (a_distance P) (a_dt P) = Inr n"
    and prof: "prof = accel_loop P n 1 (acc_init n)"
    by (auto simp: calculate_acceleration_profile_eq split: sum.splits)
  have pos: "0 < n" using n by (rule alloc_steps_pos)
  have "acc_bounded P n n prof \<or>
         (\<exists>m s. 1 \<le> m \<and> m < n \<and> acc_bounded P n m s \<and>
                 a_distance P \<le> acc_distance (accel_step P m s) ! m \<and>
                 prof = acc_truncate (Suc m) (accel_step P m s))"
    unfolding prof
  proof (rule accel_loop_cases[where I = "acc_bounded P n"])
    show "acc_bounded P n 1 (acc_init n)" using pos assms(4) by (rule acc_bounded_init)
    show "1 \<le> n" using pos by simp
  next
    fix j s assume "j < n" "acc_bounded P n j s"
    then show "acc_bounded P n (Suc j) (accel_step P j s)"
      using assms(3,4) by (intro acc_bounded_step)
  qed
  then show ?thesis
  proof (elim disjE exE conjE)
    assume b: "acc_bounded P n n prof"
    then have "acc_truncate n prof = prof"
      by (intro acc_truncate_full) (simp add: acc_bounded_def)
    with acc_bounded_result[OF b le_refl] show ?thesis by simp
  next
    fix m s assume m: "m < n" and b: "acc_bounded P n m s"
      and p: "prof = acc_truncate (Suc m) (accel_step P m s)"
    have "acc_bounded P n (Suc m) (accel_step P m s)"
      using b m assms(3,4) by (rule acc_bounded_step)
    from acc_bounded_result[OF this] m show ?thesis unfolding p by simp
  qed
qed

theorem acc_speed_in_range_distance_sorted_witness:
  "calculate_acceleration_profile acc_example = Inr acc_example_result \<and>
   0 < mass_kg (a_train_config acc_example) \<and> 0 < a_dt acc_example \<and>
   0 \<le> a_v_max acc_example \<and>
   list_all (\<lambda>x. 0 \<le> x \<and> x \<le> a_v_max acc_example) (acc_speed acc_example_result) \<and>
   sorted (acc_distance acc_example_result)"
  using acc_speed_in_range_distance_sorted[OF acc_example_run] acc_example_run
  by (simp add: acc_example_fields)

text \<open>For a non-negative distance and a positive step the call returns a profile.\<close>

lemma alloc_steps_ok:
  assumes "0 \<le> d" "0 < dt"
  shows "alloc_steps d dt = Inr (nat (\<lfloor>d / dt\<rfloor> + 1))"
proof -
  have "0 \<le> d / dt" using assms by simp
  then have "0 \<le> \<lfloor>d / dt\<rfloor>" by (simp only: zero_le_floor)
  then have "\<not> \<lfloor>d / dt\<rfloor> + 1 < 0" "\<lfloor>d / dt\<rfloor> + 1 \<noteq> 0" by linarith+
  with assms(2) show ?thesis by (simp only: alloc_steps_def Let_def) simp
qed

lemma calculate_acceleration_profile_returns:
  "0 \<le> a_distance P \<Longrightarrow> 0 < a_dt P \<Longrightarrow> \<exists>prof. calculate_acceleration_profile P = Inr prof"
  by (simp add: calculate_acceleration_profile_eq alloc_steps_ok)

lemma acc_lens_run: "acc_lens n st \<Longrightarrow> acc_lens n (accel_run P k st)"
  by (induction k) (simp_all add: acc_lens_step)

lemma acc_truncate_step_above:
  "k < i \<Longrightarrow> acc_truncate (Suc k) (accel_step P i st) = acc_truncate (Suc k) st"
  using accel_step_shape[of P i st] by (auto simp: acc_truncate_def)

lemma acc_truncate_run_above:
  "k \<le> k' \<Longrightarrow> acc_truncate (Suc k) (accel_run P k' st) = acc_truncate (Suc k) (accel_run P k st)"
proof (induction k')
  case 0
  then show ?case by simp
next
  case (Suc k')
  show ?case
  proof (cases "k = Suc k'")
    case True
    then show ?thesis by simp
  next
    case False
    with Suc.prems have le: "k \<le> k'" by simp
    then have "k < Suc k'" by simp
    then show ?thesis using Suc.IH[OF le] by (simp add: acc_truncate_step_above)
  qed
qed

lemma acc_truncate_nth:
  "j < m \<Longrightarrow> j < length (acc_distance st) \<Longrightarrow>
     acc_distance (acc_truncate m st) ! j = acc_distance st ! j"
  by (simp add: acc_truncate_def)

lemma acc_distance_run_above:
  assumes "k \<le> k'" "acc_lens n st" "k < n"
  shows "acc_distance (accel_run P k' st) ! k = acc_distance (accel_run P k st) ! k"
proof -
  have l: "length (acc_distance (accel_run P k' st)) = n" "length (acc_distance (accel_run P k st)) = n"
    using acc_lens_run[OF assms(2)] by (simp_all add: acc_lens_def)
  have "acc_distance (acc_truncate (Suc k) (accel_run P k' st)) ! k =
        acc_distance (acc_truncate (Suc k) (accel_run P k st)) ! k"
    using acc_truncate_run_above[OF assms(1)] by simp
  then show ?thesis using l assms(3) by (simp add: acc_truncate_nth)
qed


lemma accel_loop_run:
  fixes P n
  defines "init \<equiv> acc_init n"
  assumes pos: "0 < n"
  shows "(accel_loop P n 1 init = accel_run P (n - 1) init \<and>
            (\<forall>i. 1 \<le> i \<and> i < n \<longrightarrow> acc_distance (accel_run P i init) ! i < a_distance P)) \<or>
         (\<exists>m. 1 \<le> m \<and> m < n \<and>
            (\<forall>i. 1 \<le> i \<and> i < m \<longrightarrow> acc_distance (accel_run P i init) ! i < a_distance P) \<and>
            a_distance P \<le> acc_distance (accel_run P m init) ! m \<and>
            accel_loop P n 1 init = acc_truncate (Suc m) (accel_run P m init))"
proof -
  define I where "I = (\<lambda>j s. 0 < j \<and> s = accel_run P (j - 1) init \<and>
     (\<forall>i. 1 \<le> i \<and> i < j \<longrightarrow> acc_distance (accel_run P i init) ! i < a_distance P))"
  have step_run: "accel_step P j (accel_run P (j - 1) init) = accel_run P j init" if "0 < j" for j
    using that by (cases j) simp_all
  have "I n (accel_loop P n 1 init) \<or>
         (\<exists>m s. 1 \<le> m \<and> m < n \<and> I m s \<and>
                 a_distance P \<le> acc_distance (accel_step P m s) ! m \<and>
                 accel_loop P n 1 init = acc_truncate (Suc m) (accel_step P m s))"
  proof (rule accel_loop_cases[where I = I])
    show "I 1 init" by (simp add: I_def)
    show "1 \<le> n" using pos by simp
  next
    fix j s
    assume j: "1 \<le> j" "j < n" and Ij: "I j s"
      and go: "\<not> a_distance P \<le> acc_distance (accel_step P j s) ! j"
    from Ij have s: "s = accel_run P (j - 1) init"
      and prev: "\<forall>i. 1 \<le> i \<and> i < j \<longrightarrow> acc_distance (accel_run P i init) ! i < a_distance P"
      by (simp_all add: I_def)
    have st: "accel_step P j s = accel_run P j init" using j(1) s step_run by simp
    have "acc_distance (accel_run P j init) ! j < a_distance P" using go st by simp
    with prev have "\<forall>i. 1 \<le> i \<and> i < Suc j \<longrightarrow> acc_distance (accel_run P i init) ! i < a_distance P"
      by (auto simp: less_Suc_eq)
    with st show "I (Suc j) (accel_step P j s)" by (simp add: I_def)
  qed
  then show ?thesis
  proof (elim disjE exE conjE)
    assume "I n (accel_loop P n 1 init)"
    then show ?thesis by (simp add: I_def)
  next
    fix m s
    assume m: "1 \<le> m" "m < n" and Im: "I m s"
      and stop: "a_distance P \<le> acc_distance (accel_step P m s) ! m"
      and res: "accel_loop P n 1 init = acc_truncate (Suc m) (accel_step P m s)"
    from Im have s: "s = accel_run P (m - 1) init"
      and prev: "\<forall>i. 1 \<le> i \<and> i < m \<longrightarrow> acc_distance (accel_run P i init) ! i < a_distance P"
      by (simp_all add: I_def)
    have st: "accel_step P m s = accel_run P m init" using m(1) s step_run by simp
    show ?thesis using m prev stop res unfolding st by blast
  qed
qed

text \<open>The result of the call in terms of the untruncated profile and the slice function.\<close>

lemma acc_cut_or_full:
  assumes "0 < a_distance P" and "0 < a_dt P" and "mass_kg (a_train_config P) \<noteq> 0"
  shows "alloc_steps (a_distance P) (a_dt P) = Inr (acc_n_steps P) \<and>
         int (acc_n_steps P) = \<lfloor>a_distance P / a_dt P\<rfloor> + 1 \<and>
         acc_lens (acc_n_steps P) (acc_full P) \<and>
         ((\<forall>i. 1 \<le> i \<and> i < acc_n_steps P \<longrightarrow> acc_distance (acc_full P) ! i < a_distance P) \<longrightarrow>
            calculate_acceleration_profile P = Inr (acc_full P)) \<and>
         (\<forall>m. 1 \<le> m \<and> m < acc_n_steps P \<and> a_distance P \<le> acc_distance (acc_full P) ! m \<and>
              (\<forall>i. 1 \<le> i \<and> i < m \<longrightarrow> acc_distance (acc_full P) ! i < a_distance P) \<longrightarrow>
            calculate_acceleration_profile P = Inr (acc_truncate (Suc m) (acc_full P)))"
proof -
  let ?n = "acc_n_steps P" and ?D = "a_distance P"
  let ?init = "acc_init ?n"
  have alloc: "alloc_steps ?D (a_dt P) = Inr ?n"
    unfolding acc_n_steps_def using assms(1,2) by (intro alloc_steps_ok) simp_all
  have pos: "0 < ?n" using alloc by (rule alloc_steps_pos)
  have "0 \<le> \<lfloor>?D / a_dt P\<rfloor>" using assms(1,2) by simp
  then have count: "int ?n = \<lfloor>?D / a_dt P\<rfloor> + 1" by (simp add: acc_n_steps_def)
  have lens: "acc_lens ?n (acc_full P)"
    unfolding acc_full_def by (intro acc_lens_run acc_lens_init)
  have calc: "calculate_acceleration_profile P = Inr (accel_loop P ?n 1 ?init)"
    by (simp add: calculate_acceleration_profile_eq alloc)
  have at: "acc_distance (acc_full P) ! i = acc_distance (accel_run P i ?init) ! i" if "i < ?n" for i
    unfolding acc_full_def using that by (intro acc_distance_run_above[OF _ acc_lens_init]) simp_all
  have cut: "acc_truncate (Suc m) (acc_full P) = acc_truncate (Suc m) (accel_run P m ?init)"
    if "m < ?n" for m
    unfolding acc_full_def using that by (intro acc_truncate_run_above) simp
  note run = accel_loop_run[OF pos, of P]
  have full: "calculate_acceleration_profile P = Inr (acc_full P)"
    if none: "\<forall>i. 1 \<le> i \<and> i < ?n \<longrightarrow> acc_distance (acc_full P) ! i < ?D"
  proof -
    have "\<not> (\<exists>m. 1 \<le> m \<and> m < ?n \<and> ?D \<le> acc_distance (accel_run P m ?init) ! m)"
      using none at by force
    with run have "accel_loop P ?n 1 ?init = accel_run P (?n - 1) ?init" by blast
    then show ?thesis by (simp add: calc acc_full_def)
  qed
  have trunc: "calculate_acceleration_profile P = Inr (acc_truncate (Suc m) (acc_full P))"
    if m: "1 \<le> m" "m < ?n" and stop: "?D \<le> acc_distance (acc_full P) ! m"
      and before: "\<forall>i. 1 \<le> i \<and> i < m \<longrightarrow> acc_distance (acc_full P) ! i < ?D" for m
  proof -
    have stop': "?D \<le> acc_distance (accel_run P m ?init) ! m" using stop at[OF m(2)] by simp
    have before': "acc_distance (accel_run P i ?init) ! i < ?D" if "1 \<le> i" "i < m" for i
    proof -
      have "i < ?n" using that(2) m(2) by simp
      from at[OF this] before that show ?thesis by auto
    qed
    from run show ?thesis
    proof (elim disjE exE conjE)
      assume "\<forall>i. 1 \<le> i \<and> i < ?n \<longrightarrow> acc_distance (accel_run P i ?init) ! i < ?D"
      with m stop' show ?thesis by force
    next
      fix m'
      assume m': "1 \<le> m'" "m' < ?n"
        and b: "\<forall>i. 1 \<le> i \<and> i < m' \<longrightarrow> acc_distance (accel_run P i ?init) ! i < ?D"
        and s: "?D \<le> acc_distance (accel_run P m' ?init) ! m'"
        and r: "accel_loop P ?n 1 ?init = acc_truncate (Suc m') (accel_run P m' ?init)"
      have "m' = m"
      proof (rule ccontr)
        assume "m' \<noteq> m"
        then consider "m' < m" | "m < m'" by linarith
        then show False
        proof cases
          case 1
          with before'[OF m'(1)] s show False by simp
        next
          case 2
          with b m(1) stop' show False by force
        qed
      qed
      then show ?thesis using r cut[OF m(2)] by (simp add: calc)
    qed
  qed
  from alloc count lens full trunc show ?thesis by blast
qed


lemma accel_run_1: "accel_run P 1 st = accel_step P 1 st"
  by simp

lemma accel_run_2: "accel_run P 2 st = accel_step P 2 (accel_run P 1 st)"
  by (simp add: numeral_2_eq_2)

lemma accel_run_3: "accel_run P 3 st = accel_step P 3 (accel_run P 2 st)"
  by (simp add: numeral_3_eq_3 numeral_2_eq_2)

lemma acc_example_n_steps: "acc_n_steps acc_example = 4"
  by (simp add: acc_n_steps_def acc_example_fields)

lemma acc_example_run_2:
  "accel_run acc_example 2 (acc_init 4) =
     \<lparr> acc_distance = [0, 1, 3, 0], acc_speed = [0, 1, 2, 0],
       acc_acceleration = [0, 1, 1, 0], acc_tractive_effort = [0, 122625, 122625, 0] \<rparr>"
  unfolding accel_run_2 accel_run_1 acc_example_step1 acc_example_step2 ..

lemma acc_example_slow_fields:
  "mass_kg (a_train_config acc_example_slow) = 50000"
  "tractive_effort_n (a_train_config acc_example_slow) = 200000"
  "a_slope_percent acc_example_slow = 1" "a_distance acc_example_slow = 3"
  "a_v_max acc_example_slow = 1 / 2" "a_dt acc_example_slow = 1" "a_A acc_example_slow = 1500"
  "a_B acc_example_slow = 2.5" "a_C acc_example_slow = 0.008"
  "a_adhesion_coef acc_example_slow = 0.25"
  "a_tunnel_factor acc_example_slow = 0" "a_curve_resistance acc_example_slow = 1000"
  "a_max_acc acc_example_slow = 1"
  by (simp_all add: acc_example_slow_def acc_example_def)

lemma acc_example_slow_n_steps: "acc_n_steps acc_example_slow = 4"
  by (simp add: acc_n_steps_def acc_example_slow_fields)

lemma acc_example_slow_step1:
  "accel_step acc_example_slow 1 (acc_init 4)
   = \<lparr> acc_distance = [0, 1 / 2, 0, 0], acc_speed = [0, 1 / 2, 0, 0],
       acc_acceleration = [0, 1, 0, 0], acc_tractive_effort = [0, 122625, 0, 0] \<rparr>"
  unfolding acc_init_4
  by (subst accel_step_eval[where v_prev = 0 and F_total_res = 7405 and F_trac_i = 122625
        and a_i = 1 and v_i = "1 / 2" and s_i = "1 / 2"])
     (simp_all add: acc_example_slow_fields g_def)

lemma acc_example_slow_step2:
  "accel_step acc_example_slow 2
     \<lparr> acc_distance = [0, 1 / 2, 0, 0], acc_speed = [0, 1 / 2, 0, 0],
       acc_acceleration = [0, 1, 0, 0], acc_tractive_effort = [0, 122625, 0, 0] \<rparr>
   = \<lparr> acc_distance = [0, 1 / 2, 1, 0], acc_speed = [0, 1 / 2, 1 / 2, 0],
       acc_acceleration = [0, 1, 1, 0], acc_tractive_effort = [0, 122625, 122625, 0] \<rparr>"
  by (subst accel_step_eval[where v_prev = "1 / 2" and F_total_res = "7406.252"
        and F_trac_i = 122625 and a_i = 1 and v_i = "1 / 2" and s_i = 1])
     (simp_all add: acc_example_slow_fields g_def power2_eq_square)

lemma acc_example_slow_step3:
  "accel_step acc_example_slow 3
     \<lparr> acc_distance = [0, 1 / 2, 1, 0], acc_speed = [0, 1 / 2, 1 / 2, 0],
       acc_acceleration = [0, 1, 1, 0], acc_tractive_effort = [0, 122625, 122625, 0] \<rparr>
   = \<lparr> acc_distance = [0, 1 / 2, 1, 3 / 2], acc_speed = [0, 1 / 2, 1 / 2, 1 / 2],
       acc_acceleration = [0, 1, 1, 1], acc_tractive_effort = [0, 122625, 122625, 122625] \<rparr>"
  by (subst accel_step_eval[where v_prev = "1 / 2" and F_total_res = "7406.252"
        and F_trac_i = 122625 and a_i = 1 and v_i = "1 / 2" and s_i = "3 / 2"])
     (simp_all add: acc_example_slow_fields g_def power2_eq_square)

lemma acc_example_slow_full:
  "acc_full acc_example_slow =
     \<lparr> acc_distance = [0, 1 / 2, 1, 3 / 2], acc_speed = [0, 1 / 2, 1 / 2, 1 / 2],
       acc_acceleration = [0, 1, 1, 1], acc_tractive_effort = [0, 122625, 122625, 122625] \<rparr>"
proof -
  have "acc_full acc_example_slow = accel_run acc_example_slow 3 (acc_init 4)"
    by (simp add: acc_full_def acc_example_slow_n_steps)
  then show ?thesis
    unfolding accel_run_3 accel_run_2 accel_run_1
      acc_example_slow_step1 acc_example_slow_step2 acc_example_slow_step3 .
qed

lemma acc_example_full_distance:
  "acc_distance (acc_full acc_example) ! Suc 0 = 1" "acc_distance (acc_full acc_example) ! 2 = 3"
proof -
  have full: "acc_full acc_example = accel_run acc_example 3 (acc_init 4)"
    by (simp add: acc_full_def acc_example_n_steps)
  have "acc_distance (accel_run acc_example 3 (acc_init 4)) ! 1 =
        acc_distance (accel_run acc_example 1 (acc_init 4)) ! 1"
    by (rule acc_distance_run_above[OF _ acc_lens_init]) simp_all
  then show "acc_distance (acc_full acc_example) ! Suc 0 = 1"
    unfolding full accel_run_1 acc_example_step1 by simp
  have "acc_distance (accel_run acc_example 3 (acc_init 4)) ! 2 =
        acc_distance (accel_run acc_example 2 (acc_init 4)) ! 2"
    by (rule acc_distance_run_above[OF _ acc_lens_init]) simp_all
  then show "acc_distance (acc_full acc_example) ! 2 = 3"
    unfolding full acc_example_run_2 by simp
qed

lemma acc_truncate_takes:
  "acc_truncate k st =
     \<lparr> acc_distance = take k (acc_distance st), acc_speed = take k (acc_speed st),
       acc_acceleration = take k (acc_acceleration st),
       acc_tractive_effort = take k (acc_tractive_effort st) \<rparr>"
  by (simp add: acc_truncate_def)

text \<open>
  Claim C5. For \<open>distance > 0\<close> and \<open>dt > 0\<close> (and a non-zero mass) the requested step count
  is \<open>floor(distance / dt) + 1\<close> and each of the four arrays of the untruncated profile has
  that many entries. When no step \<open>i \<ge> 1\<close> has \<open>s_i \<ge> distance\<close>, the call returns the
  untruncated profile. Otherwise, with \<open>m\<close> the first step where \<open>s_m \<ge> distance\<close>, the call
  returns the first \<open>m + 1\<close> entries of each of the four arrays: every returned array has
  length \<open>m + 1\<close>, and the last returned distance is \<open>s_m\<close>, the entry of the terminating
  step.
\<close>

theorem acc_truncated_at_first_crossing:
  assumes "0 < a_distance P" and "0 < a_dt P" and "mass_kg (a_train_config P) \<noteq> 0"
  shows "alloc_steps (a_distance P) (a_dt P) = Inr (acc_n_steps P) \<and>
         int (acc_n_steps P) = \<lfloor>a_distance P / a_dt P\<rfloor> + 1 \<and>
         length (acc_distance (acc_full P)) = acc_n_steps P \<and>
         length (acc_speed (acc_full P)) = acc_n_steps P \<and>
         length (acc_acceleration (acc_full P)) = acc_n_steps P \<and>
         length (acc_tractive_effort (acc_full P)) = acc_n_steps P \<and>
         ((\<forall>i. 1 \<le> i \<and> i < acc_n_steps P \<longrightarrow> acc_distance (acc_full P) ! i < a_distance P) \<longrightarrow>
            calculate_acceleration_profile P = Inr (acc_full P)) \<and>
         (\<forall>m. 1 \<le> m \<and> m < acc_n_steps P \<and> a_distance P \<le> acc_distance (acc_full P) ! m \<and>
              (\<forall>i. 1 \<le> i \<and> i < m \<longrightarrow> acc_distance (acc_full P) ! i < a_distance P) \<longrightarrow>
            calculate_acceleration_profile P =
              Inr \<lparr> acc_distance = take (m + 1) (acc_distance (acc_full P)),
                    acc_speed = take (m + 1) (acc_speed (acc_full P)),
                    acc_acceleration = take (m + 1) (acc_acceleration (acc_full P)),
                    acc_tractive_effort = take (m + 1) (acc_tractive_effort (acc_full P)) \<rparr> \<and>
            length (take (m + 1) (acc_distance (acc_full P))) = m + 1 \<and>
            length (take (m + 1) (acc_speed (acc_full P))) = m + 1 \<and>
            length (take (m + 1) (acc_acceleration (acc_full P))) = m + 1 \<and>
            length (take (m + 1) (acc_tractive_effort (acc_full P))) = m + 1 \<and>
            last (take (m + 1) (acc_distance (acc_full P))) = acc_distance (acc_full P) ! m)"
proof -
  note c = acc_cut_or_full[OF assms]
  from c have lens: "acc_lens (acc_n_steps P) (acc_full P)" by blast
  then have len: "length (acc_distance (acc_full P)) = acc_n_steps P"
    "length (acc_speed (acc_full P)) = acc_n_steps P"
    "length (acc_acceleration (acc_full P)) = acc_n_steps P"
    "length (acc_tractive_effort (acc_full P)) = acc_n_steps P"
    by (simp_all add: acc_lens_def)
  have cut: "calculate_acceleration_profile P =
              Inr \<lparr> acc_distance = take (m + 1) (acc_distance (acc_full P)),
                    acc_speed = take (m + 1) (acc_speed (acc_full P)),
                    acc_acceleration = take (m + 1) (acc_acceleration (acc_full P)),
                    acc_tractive_effort = take (m + 1) (acc_tractive_effort (acc_full P)) \<rparr> \<and>
            length (take (m + 1) (acc_distance (acc_full P))) = m + 1 \<and>
            length (take (m + 1) (acc_speed (acc_full P))) = m + 1 \<and>
            length (take (m + 1) (acc_acceleration (acc_full P))) = m + 1 \<and>
            length (take (m + 1) (acc_tractive_effort (acc_full P))) = m + 1 \<and>
            last (take (m + 1) (acc_distance (acc_full P))) = acc_distance (acc_full P) ! m"
    if m: "1 \<le> m \<and> m < acc_n_steps P \<and> a_distance P \<le> acc_distance (acc_full P) ! m \<and>
              (\<forall>i. 1 \<le> i \<and> i < m \<longrightarrow> acc_distance (acc_full P) ! i < a_distance P)" for m
  proof -
    from c m have "calculate_acceleration_profile P = Inr (acc_truncate (Suc m) (acc_full P))"
      by blast
    then have r: "calculate_acceleration_profile P =
              Inr \<lparr> acc_distance = take (m + 1) (acc_distance (acc_full P)),
                    acc_speed = take (m + 1) (acc_speed (acc_full P)),
                    acc_acceleration = take (m + 1) (acc_acceleration (acc_full P)),
                    acc_tractive_effort = take (m + 1) (acc_tractive_effort (acc_full P)) \<rparr>"
      by (simp add: acc_truncate_takes)
    have lt: "m < acc_n_steps P" using m by simp
    have "take (m + 1) (acc_distance (acc_full P)) =
            take m (acc_distance (acc_full P)) @ [acc_distance (acc_full P) ! m]"
      using lt len(1) by (simp add: take_Suc_conv_app_nth)
    then have "last (take (m + 1) (acc_distance (acc_full P))) = acc_distance (acc_full P) ! m"
      by simp
    with r lt len show ?thesis by simp
  qed
  from c have "alloc_steps (a_distance P) (a_dt P) = Inr (acc_n_steps P)"
    and "int (acc_n_steps P) = \<lfloor>a_distance P / a_dt P\<rfloor> + 1"
    and "(\<forall>i. 1 \<le> i \<and> i < acc_n_steps P \<longrightarrow> acc_distance (acc_full P) ! i < a_distance P) \<longrightarrow>
            calculate_acceleration_profile P = Inr (acc_full P)"
    by blast+
  with len cut show ?thesis by blast
qed

text \<open>The claim at the example run (4 entries requested; the distance 3 is reached in
  step 2, so 3 entries of each array are returned) and at the slow run (the 4 requested
  entries of each array returned whole).\<close>

theorem acc_truncated_at_first_crossing_witness:
  "0 < a_distance acc_example \<and> 0 < a_dt acc_example \<and>
   mass_kg (a_train_config acc_example) \<noteq> 0 \<and>
   alloc_steps (a_distance acc_example) (a_dt acc_example) = Inr 4 \<and>
   acc_distance (acc_full acc_example) ! 1 < a_distance acc_example \<and>
   a_distance acc_example \<le> acc_distance (acc_full acc_example) ! 2 \<and>
   calculate_acceleration_profile acc_example =
     Inr \<lparr> acc_distance = [0, 1, 3], acc_speed = [0, 1, 2],
           acc_acceleration = [0, 1, 1], acc_tractive_effort = [0, 122625, 122625] \<rparr> \<and>
   take 3 (acc_distance (acc_full acc_example)) = [0, 1, 3] \<and>
   take 3 (acc_speed (acc_full acc_example)) = [0, 1, 2] \<and>
   take 3 (acc_acceleration (acc_full acc_example)) = [0, 1, 1] \<and>
   take 3 (acc_tractive_effort (acc_full acc_example)) = [0, 122625, 122625] \<and>
   length (acc_distance (acc_full acc_example)) = 4 \<and>
   0 < a_distance acc_example_slow \<and> 0 < a_dt acc_example_slow \<and>
   mass_kg (a_train_config acc_example_slow) \<noteq> 0 \<and>
   acc_full acc_example_slow =
     \<lparr> acc_distance = [0, 1 / 2, 1, 3 / 2], acc_speed = [0, 1 / 2, 1 / 2, 1 / 2],
       acc_acceleration = [0, 1, 1, 1], acc_tractive_effort = [0, 122625, 122625, 122625] \<rparr> \<and>
   calculate_acceleration_profile acc_example_slow =
     Inr \<lparr> acc_distance = [0, 1 / 2, 1, 3 / 2], acc_speed = [0, 1 / 2, 1 / 2, 1 / 2],
           acc_acceleration = [0, 1, 1, 1],
           acc_tractive_effort = [0, 122625, 122625, 122625] \<rparr>"
proof -
  have h: "0 < a_distance acc_example" "0 < a_dt acc_example"
    "mass_kg (a_train_config acc_example) \<noteq> 0"
    by (simp_all add: acc_example_fields)
  have hs: "0 < a_distance acc_example_slow" "0 < a_dt acc_example_slow"
    "mass_kg (a_train_config acc_example_slow) \<noteq> 0"
    by (simp_all add: acc_example_slow_fields)
  have before: "\<forall>i. 1 \<le> i \<and> i < 2 \<longrightarrow>
      acc_distance (acc_full acc_example) ! i < a_distance acc_example"
  proof (intro allI impI)
    fix i :: nat assume "1 \<le> i \<and> i < 2"
    then have "i = 1" by simp
    then show "acc_distance (acc_full acc_example) ! i < a_distance acc_example"
      by (simp add: acc_example_full_distance acc_example_fields)
  qed
  have none: "\<forall>i. 1 \<le> i \<and> i < acc_n_steps acc_example_slow \<longrightarrow>
      acc_distance (acc_full acc_example_slow) ! i < a_distance acc_example_slow"
  proof (intro allI impI)
    fix i :: nat assume "1 \<le> i \<and> i < acc_n_steps acc_example_slow"
    then have "i = 1 \<or> i = 2 \<or> i = 3" by (auto simp: acc_example_slow_n_steps)
    then show "acc_distance (acc_full acc_example_slow) ! i < a_distance acc_example_slow"
      by (auto simp: acc_example_slow_full acc_example_slow_fields)
  qed
  have at2: "1 \<le> (2::nat) \<and> 2 < acc_n_steps acc_example \<and>
      a_distance acc_example \<le> acc_distance (acc_full acc_example) ! 2 \<and>
      (\<forall>i. 1 \<le> i \<and> i < 2 \<longrightarrow>
         acc_distance (acc_full acc_example) ! i < a_distance acc_example)"
    using before by (simp add: acc_example_n_steps acc_example_full_distance acc_example_fields)
  note T = acc_truncated_at_first_crossing[OF h]
  from T have len: "length (acc_distance (acc_full acc_example)) = 4"
    by (simp add: acc_example_n_steps)
  from T have "\<forall>m. 1 \<le> m \<and> m < acc_n_steps acc_example \<and>
      a_distance acc_example \<le> acc_distance (acc_full acc_example) ! m \<and>
      (\<forall>i. 1 \<le> i \<and> i < m \<longrightarrow>
         acc_distance (acc_full acc_example) ! i < a_distance acc_example) \<longrightarrow>
      calculate_acceleration_profile acc_example =
              Inr \<lparr> acc_distance = take (m + 1) (acc_distance (acc_full acc_example)),
                    acc_speed = take (m + 1) (acc_speed (acc_full acc_example)),
                    acc_acceleration = take (m + 1) (acc_acceleration (acc_full acc_example)),
                    acc_tractive_effort =
                      take (m + 1) (acc_tractive_effort (acc_full acc_example)) \<rparr> \<and>
            length (take (m + 1) (acc_distance (acc_full acc_example))) = m + 1 \<and>
            length (take (m + 1) (acc_speed (acc_full acc_example))) = m + 1 \<and>
            length (take (m + 1) (acc_acceleration (acc_full acc_example))) = m + 1 \<and>
            length (take (m + 1) (acc_tractive_effort (acc_full acc_example))) = m + 1 \<and>
            last (take (m + 1) (acc_distance (acc_full acc_example))) =
              acc_distance (acc_full acc_example) ! m"
    by (elim conjE)
  from this[rule_format, OF at2]
  have cut: "calculate_acceleration_profile acc_example =
              Inr \<lparr> acc_distance = take 3 (acc_distance (acc_full acc_example)),
                    acc_speed = take 3 (acc_speed (acc_full acc_example)),
                    acc_acceleration = take 3 (acc_acceleration (acc_full acc_example)),
                    acc_tractive_effort = take 3 (acc_tractive_effort (acc_full acc_example)) \<rparr>"
    by simp
  have run: "calculate_acceleration_profile acc_example =
     Inr \<lparr> acc_distance = [0, 1, 3], acc_speed = [0, 1, 2],
           acc_acceleration = [0, 1, 1], acc_tractive_effort = [0, 122625, 122625] \<rparr>"
    using acc_example_run by (simp add: acc_example_result_def)
  from cut run have takes: "take 3 (acc_distance (acc_full acc_example)) = [0, 1, 3]"
    "take 3 (acc_speed (acc_full acc_example)) = [0, 1, 2]"
    "take 3 (acc_acceleration (acc_full acc_example)) = [0, 1, 1]"
    "take 3 (acc_tractive_effort (acc_full acc_example)) = [0, 122625, 122625]"
    by simp_all
  have slow: "calculate_acceleration_profile acc_example_slow = Inr (acc_full acc_example_slow)"
    using acc_truncated_at_first_crossing[OF hs] none by blast
  have d: "acc_distance (acc_full acc_example) ! 1 < a_distance acc_example"
    "a_distance acc_example \<le> acc_distance (acc_full acc_example) ! 2"
    by (simp_all add: acc_example_full_distance acc_example_fields)
  from h hs acc_example_alloc d run takes len acc_example_slow_full
    slow[unfolded acc_example_slow_full]
  show ?thesis by (intro conjI)
qed


text \<open>The boundary case of the specification: 1000 metres at a step of 1 request 1001
  entries.\<close>

lemma alloc_steps_1000: "alloc_steps 1000 1 = Inr 1001"
  by (simp add: alloc_steps_def)

section \<open>Braking integrator: properties\<close>

lemma calculate_braking_profile_eq:
  "calculate_braking_profile P =
     (case alloc_steps (b_distance P) (b_dt P) of
        Inl e \<Rightarrow> Inl e
      | Inr n_steps \<Rightarrow> braking_loop P n_steps 1 (brk_init P n_steps))"
  unfolding calculate_braking_profile_def brk_init_def ..

lemma brk_lens_init: "brk_lens n (brk_init P n)"
  by (simp add: brk_lens_def brk_init_def)

lemma braking_step_eval:
  assumes "dec = max (b_min_dec P) (min (b_deceleration_profile P + b_g P * slope) (b_max_dec P))"
    and "v_prev = brk_speed st ! (i - 1)"
    and "v1 = sqrt (max 0 (2 * dec + v_prev ^ 2))"
    and "v_i = max 0 (v_prev + dec * 1 / max ((v_prev + v1) / 2) (1 / 1000000))"
    and "s_i = brk_distance st ! (i - 1) + v_i * b_dt P"
  shows "braking_step P slope i st =
      \<lparr> brk_distance = (brk_distance st)[i := s_i],
        brk_speed = (brk_speed st)[i := v_i],
        brk_deceleration = (brk_deceleration st)[i := dec] \<rparr>"
  unfolding braking_step_def Let_def assms by (rule refl)

lemma braking_step_shape:
  "\<exists>dec v_i. braking_step P slope i st =
      \<lparr> brk_distance = (brk_distance st)[i := brk_distance st ! (i - 1) + v_i * b_dt P],
        brk_speed = (brk_speed st)[i := v_i],
        brk_deceleration = (brk_deceleration st)[i := dec] \<rparr>"
  by (intro exI, rule braking_step_eval) (rule refl)+

lemma brk_lens_step: "brk_lens n st \<Longrightarrow> brk_lens n (braking_step P slope i st)"
  using braking_step_shape[of P slope i st] by (auto simp: brk_lens_def)

lemma braking_loop_end: "\<not> i < n \<Longrightarrow> braking_loop P n i st = Inr st"
  by (subst braking_loop.simps) simp

lemma braking_loop_error:
  "i < n \<Longrightarrow> read_slope (b_slope_profile P) i = Inl e \<Longrightarrow> braking_loop P n i st = Inl e"
  by (subst braking_loop.simps) simp

lemma braking_loop_stop:
  "i < n \<Longrightarrow> read_slope (b_slope_profile P) i = Inr slope \<Longrightarrow>
     brk_stop P i (braking_step P slope i st) \<Longrightarrow>
     braking_loop P n i st = Inr (brk_truncate (Suc i) (braking_step P slope i st))"
  by (subst braking_loop.simps) (simp add: Let_def brk_stop_def)

lemma braking_loop_go:
  "i < n \<Longrightarrow> read_slope (b_slope_profile P) i = Inr slope \<Longrightarrow>
     \<not> brk_stop P i (braking_step P slope i st) \<Longrightarrow>
     braking_loop P n i st = braking_loop P n (Suc i) (braking_step P slope i st)"
  by (subst braking_loop.simps) (simp add: Let_def brk_stop_def)

text \<open>The braking loop leaves in one of three ways: at the end of the range, at a
  \<^verbatim>\<open>break\<close> in step \<open>m\<close>, or with the exception of the slope read of step \<open>m\<close>.\<close>

lemma braking_loop_cases:
  assumes "I i st" and "i \<le> n"
    and step: "\<And>j s slope. i \<le> j \<Longrightarrow> j < n \<Longrightarrow> I j s \<Longrightarrow>
                 read_slope (b_slope_profile P) j = Inr slope \<Longrightarrow>
                 \<not> brk_stop P j (braking_step P slope j s) \<Longrightarrow>
                 I (Suc j) (braking_step P slope j s)"
  shows "(\<exists>st'. braking_loop P n i st = Inr st' \<and> I n st') \<or>
         (\<exists>m s slope. i \<le> m \<and> m < n \<and> I m s \<and>
                 read_slope (b_slope_profile P) m = Inr slope \<and>
                 brk_stop P m (braking_step P slope m s) \<and>
                 braking_loop P n i st = Inr (brk_truncate (Suc m) (braking_step P slope m s))) \<or>
         (\<exists>m s e. i \<le> m \<and> m < n \<and> I m s \<and>
                 read_slope (b_slope_profile P) m = Inl e \<and>
                 braking_loop P n i st = Inl e)"
  using assms
proof (induction P n i st rule: braking_loop.induct)
  case (1 P n_steps i st)
  show ?case
  proof (cases "i < n_steps")
    case False
    then have "i = n_steps" using "1.prems"(2) by simp
    with False "1.prems"(1) show ?thesis by (simp add: braking_loop_end)
  next
    case True
    show ?thesis
    proof (cases "read_slope (b_slope_profile P) i")
      case (Inl e)
      have "braking_loop P n_steps i st = Inl e" using True Inl by (rule braking_loop_error)
      with True Inl "1.prems"(1) show ?thesis by blast
    next
      case (Inr slope)
      let ?st' = "braking_step P slope i st"
      show ?thesis
      proof (cases "brk_stop P i ?st'")
        case stop: True
        have "braking_loop P n_steps i st = Inr (brk_truncate (Suc i) ?st')"
          using True Inr stop by (rule braking_loop_stop)
        with True Inr stop "1.prems"(1) show ?thesis by blast
      next
        case go: False
        have eq: "braking_loop P n_steps i st = braking_loop P n_steps (i + 1) ?st'"
          using braking_loop_go[OF True Inr go] by simp
        have I': "I (i + 1) ?st'"
          using "1.prems"(3)[OF le_refl True "1.prems"(1) Inr go] by simp
        have go': "\<not> (brk_speed ?st' ! i \<le> 0 \<or> b_distance P \<le> brk_distance ?st' ! i)"
          using go by (simp add: brk_stop_def)
        have "(\<exists>st'. braking_loop P n_steps (i + 1) ?st' = Inr st' \<and> I n_steps st') \<or>
         (\<exists>m s slope. i + 1 \<le> m \<and> m < n_steps \<and> I m s \<and>
                 read_slope (b_slope_profile P) m = Inr slope \<and>
                 brk_stop P m (braking_step P slope m s) \<and>
                 braking_loop P n_steps (i + 1) ?st' = Inr (brk_truncate (Suc m) (braking_step P slope m s))) \<or>
         (\<exists>m s e. i + 1 \<le> m \<and> m < n_steps \<and> I m s \<and>
                 read_slope (b_slope_profile P) m = Inl e \<and>
                 braking_loop P n_steps (i + 1) ?st' = Inl e)"
        proof (rule "1.IH"[OF True Inr refl go' I'])
          show "i + 1 \<le> n_steps" using True by simp
          fix j s slope' assume "i + 1 \<le> j" "j < n_steps" "I j s"
            "read_slope (b_slope_profile P) j = Inr slope'"
            "\<not> brk_stop P j (braking_step P slope' j s)"
          then show "I (Suc j) (braking_step P slope' j s)"
            using "1.prems"(3)[of j s slope'] by simp
        qed
        then show ?thesis unfolding eq
          by (elim disjE exE conjE) (auto intro: Suc_leD)
      qed
    qed
  qed
qed

lemma braking_step_speed:
  assumes "b_min_dec P < 0" "b_max_dec P < 0" "0 \<le> brk_speed st ! (i - 1)"
  shows "\<exists>dec v_i. braking_step P slope i st =
      \<lparr> brk_distance = (brk_distance st)[i := brk_distance st ! (i - 1) + v_i * b_dt P],
        brk_speed = (brk_speed st)[i := v_i],
        brk_deceleration = (brk_deceleration st)[i := dec] \<rparr> \<and>
      0 \<le> v_i \<and> v_i \<le> brk_speed st ! (i - 1)"
proof -
  define dec where "dec = max (b_min_dec P) (min (b_deceleration_profile P + b_g P * slope) (b_max_dec P))"
  define v_prev where "v_prev = brk_speed st ! (i - 1)"
  define v1 where "v1 = sqrt (max 0 (2 * dec + v_prev ^ 2))"
  define M where "M = max ((v_prev + v1) / 2) (1 / 1000000)"
  define v_i where "v_i = max 0 (v_prev + dec * 1 / M)"
  have neg: "dec < 0" using assms(1,2) by (simp add: dec_def)
  have "0 < M" by (simp add: M_def max_def)
  with neg have "dec * 1 / M < 0" by (simp add: divide_neg_pos)
  then have "v_prev + dec * 1 / M \<le> v_prev" by simp
  moreover have "0 \<le> v_prev" using assms(3) by (simp add: v_prev_def)
  ultimately have le: "v_i \<le> v_prev" and ge: "0 \<le> v_i" by (simp_all add: v_i_def)
  have "braking_step P slope i st =
      \<lparr> brk_distance = (brk_distance st)[i := brk_distance st ! (i - 1) + v_i * b_dt P],
        brk_speed = (brk_speed st)[i := v_i],
        brk_deceleration = (brk_deceleration st)[i := dec] \<rparr>"
    by (rule braking_step_eval[OF dec_def v_prev_def v1_def _ refl])
       (simp add: v_i_def M_def)
  with le ge show ?thesis unfolding v_prev_def by blast
qed

lemma sorted_rev_take_snoc:
  fixes v :: "real list"
  assumes "sorted (rev (take i v))" "0 < i" "i < length v" "y \<le> v ! (i - 1)"
  shows "sorted (rev (take (Suc i) (v[i := y])))"
proof -
  have eq: "take (Suc i) (v[i := y]) = take i v @ [y]"
    using assms(3) by (simp add: take_Suc_conv_app_nth)
  have "y \<le> x" if "x \<in> set (take i v)" for x
  proof -
    from that obtain k where k: "k < length (take i v)" "x = take i v ! k"
      by (auto simp: in_set_conv_nth)
    have ki: "k < i" using k(1) by simp
    have "rev (take i v) ! (i - 1 - k) = take i v ! k"
      using ki assms(3) by (simp add: rev_nth)
    moreover have "rev (take i v) ! 0 = take i v ! (i - 1)"
      using assms(2,3) by (simp add: rev_nth)
    moreover have "rev (take i v) ! 0 \<le> rev (take i v) ! (i - 1 - k)"
      using assms(1,2,3) ki by (intro sorted_nth_mono) auto
    ultimately show ?thesis using k(2) assms(2,4) by simp
  qed
  with assms(1) show ?thesis unfolding eq by simp
qed

lemma brk_decaying_step:
  assumes "brk_decaying n j s" "j < n" "b_min_dec P < 0" "b_max_dec P < 0"
  shows "brk_decaying n (Suc j) (braking_step P slope j s)"
proof -
  have lens: "brk_lens n s" and j: "0 < j"
    and nn: "list_all (\<lambda>x. 0 \<le> x) (take j (brk_speed s))"
    and so: "sorted (rev (take j (brk_speed s)))"
    using assms(1) by (auto simp: brk_decaying_def)
  have len: "length (brk_speed s) = n" using lens by (simp add: brk_lens_def)
  have "brk_speed s ! (j - 1) \<in> set (take j (brk_speed s))"
    using j assms(2) len by (auto simp: in_set_conv_nth intro!: exI[of _ "j - 1"])
  with nn have prev: "0 \<le> brk_speed s ! (j - 1)" by (simp add: list_all_iff)
  from braking_step_speed[OF assms(3,4) prev, of slope] obtain dec v_i where
    st: "braking_step P slope j s =
      \<lparr> brk_distance = (brk_distance s)[j := brk_distance s ! (j - 1) + v_i * b_dt P],
        brk_speed = (brk_speed s)[j := v_i],
        brk_deceleration = (brk_deceleration s)[j := dec] \<rparr>"
    and v: "0 \<le> v_i" "v_i \<le> brk_speed s ! (j - 1)"
    by blast
  have tk: "take (Suc j) ((brk_speed s)[j := v_i]) = take j (brk_speed s) @ [v_i]"
    using assms(2) len by (simp add: take_Suc_conv_app_nth)
  have "list_all (\<lambda>x. 0 \<le> x) (take (Suc j) ((brk_speed s)[j := v_i]))"
    unfolding tk using nn v(1) by simp
  moreover have "sorted (rev (take (Suc j) ((brk_speed s)[j := v_i])))"
    using so j _ v(2) by (rule sorted_rev_take_snoc) (simp add: len assms(2))
  moreover have "brk_lens n (braking_step P slope j s)" using lens by (rule brk_lens_step)
  ultimately show ?thesis
    using assms(2) unfolding brk_decaying_def st by simp
qed

lemma brk_decaying_init:
  "0 < n \<Longrightarrow> 0 \<le> b_initial_speed P \<Longrightarrow> brk_decaying n 1 (brk_init P n)"
  by (cases n) (simp_all add: brk_decaying_def brk_lens_init, simp_all add: brk_init_def)

lemma brk_decaying_result:
  assumes "brk_decaying n k st"
  shows "list_all (\<lambda>x. 0 \<le> x) (brk_speed (brk_truncate k st)) \<and>
         sorted (rev (brk_speed (brk_truncate k st))) \<and> brk_lens k (brk_truncate k st)"
  using assms unfolding brk_decaying_def brk_truncate_def brk_lens_def by simp

lemma brk_truncate_full: "brk_lens n st \<Longrightarrow> brk_truncate n st = st"
  by (simp add: brk_truncate_def brk_lens_def)

lemma brk_truncate_last:
  assumes "brk_lens n st" "m < n"
  shows "last (brk_speed (brk_truncate (Suc m) st)) = brk_speed st ! m"
    and "last (brk_distance (brk_truncate (Suc m) st)) = brk_distance st ! m"
  using assms by (simp_all add: brk_truncate_def brk_lens_def take_Suc_conv_app_nth)

lemma sqrt_quarter: "sqrt (1 / 4) = 1 / 2"
  by (rule real_sqrt_unique) (simp_all add: power2_eq_square)

lemma brk_example_fields:
  "b_initial_speed brk_example = 3 / 2" "b_distance brk_example = 5"
  "b_slope_profile brk_example = None" "b_deceleration_profile brk_example = - 1"
  "b_min_dec brk_example = - 1.2" "b_max_dec brk_example = - 0.5" "b_dt brk_example = 1"
  "b_g brk_example = 9.81"
  by (simp_all add: brk_example_def)

lemma brk_example_short_fields:
  "b_initial_speed brk_example_short = 3 / 2" "b_distance brk_example_short = 1"
  "b_slope_profile brk_example_short = None" "b_deceleration_profile brk_example_short = - 1"
  "b_min_dec brk_example_short = - 1.2" "b_max_dec brk_example_short = - 0.5"
  "b_dt brk_example_short = 1" "b_g brk_example_short = 9.81"
  by (simp_all add: brk_example_short_def brk_example_def)

lemma brk_example_far_fields:
  "b_initial_speed brk_example_far = 3" "b_distance brk_example_far = 2"
  "b_slope_profile brk_example_far = None" "b_deceleration_profile brk_example_far = - 2.5"
  "b_min_dec brk_example_far = - 4" "b_max_dec brk_example_far = - 0.5"
  "b_dt brk_example_far = 1" "b_g brk_example_far = 9.81"
  by (simp_all add: brk_example_far_def)

lemma read_slope_None: "read_slope None i = Inr 0"
  by (simp add: read_slope_def)

lemma brk_example_step1:
  "braking_step brk_example 0 1
     \<lparr> brk_distance = [0, 0, 0, 0, 0, 0], brk_speed = [3 / 2, 0, 0, 0, 0, 0],
       brk_deceleration = [0, 0, 0, 0, 0, 0] \<rparr>
   = \<lparr> brk_distance = [0, 1 / 2, 0, 0, 0, 0], brk_speed = [3 / 2, 1 / 2, 0, 0, 0, 0],
       brk_deceleration = [0, - 1, 0, 0, 0, 0] \<rparr>"
  by (subst braking_step_eval[where dec = "- 1" and v_prev = "3 / 2" and ?v1.0 = "1 / 2"
        and v_i = "1 / 2" and s_i = "1 / 2"])
     (simp_all add: brk_example_fields power2_eq_square sqrt_quarter)

lemma brk_example_step2:
  "braking_step brk_example 0 2
     \<lparr> brk_distance = [0, 1 / 2, 0, 0, 0, 0], brk_speed = [3 / 2, 1 / 2, 0, 0, 0, 0],
       brk_deceleration = [0, - 1, 0, 0, 0, 0] \<rparr>
   = \<lparr> brk_distance = [0, 1 / 2, 1 / 2, 0, 0, 0], brk_speed = [3 / 2, 1 / 2, 0, 0, 0, 0],
       brk_deceleration = [0, - 1, - 1, 0, 0, 0] \<rparr>"
  by (subst braking_step_eval[where dec = "- 1" and v_prev = "1 / 2" and ?v1.0 = 0
        and v_i = 0 and s_i = "1 / 2"])
     (simp_all add: brk_example_fields power2_eq_square)

lemma brk_example_short_step1:
  "braking_step brk_example_short 0 1
     \<lparr> brk_distance = [0, 0], brk_speed = [3 / 2, 0], brk_deceleration = [0, 0] \<rparr>
   = \<lparr> brk_distance = [0, 1 / 2], brk_speed = [3 / 2, 1 / 2], brk_deceleration = [0, - 1] \<rparr>"
  by (subst braking_step_eval[where dec = "- 1" and v_prev = "3 / 2" and ?v1.0 = "1 / 2"
        and v_i = "1 / 2" and s_i = "1 / 2"])
     (simp_all add: brk_example_short_fields power2_eq_square sqrt_quarter)

lemma brk_example_far_step1:
  "braking_step brk_example_far 0 1
     \<lparr> brk_distance = [0, 0, 0], brk_speed = [3, 0, 0], brk_deceleration = [0, 0, 0] \<rparr>
   = \<lparr> brk_distance = [0, 2, 0], brk_speed = [3, 2, 0], brk_deceleration = [0, - 5 / 2, 0] \<rparr>"
  by (subst braking_step_eval[where dec = "- 5 / 2" and v_prev = 3 and ?v1.0 = 2
        and v_i = 2 and s_i = 2])
     (simp_all add: brk_example_far_fields power2_eq_square)


lemma brk_example_alloc: "alloc_steps (b_distance brk_example) (b_dt brk_example) = Inr 6"
  by (simp add: alloc_steps_def brk_example_fields)

lemma brk_example_short_alloc:
  "alloc_steps (b_distance brk_example_short) (b_dt brk_example_short) = Inr 2"
  by (simp add: alloc_steps_def brk_example_short_fields)

lemma brk_example_far_alloc:
  "alloc_steps (b_distance brk_example_far) (b_dt brk_example_far) = Inr 3"
  by (simp add: alloc_steps_def brk_example_far_fields)

lemma brk_example_run: "calculate_braking_profile brk_example = Inr brk_example_result"
proof -
  let ?st0 = "\<lparr> brk_distance = [0, 0, 0, 0, 0, 0], brk_speed = [3 / 2, 0, 0, 0, 0, 0],
       brk_deceleration = [0, 0, 0, 0, 0, (0::real)] \<rparr>"
  let ?st1 = "\<lparr> brk_distance = [0, 1 / 2, 0, 0, 0, 0], brk_speed = [3 / 2, 1 / 2, 0, 0, 0, 0],
       brk_deceleration = [0, - 1, 0, 0, 0, (0::real)] \<rparr>"
  have rs: "read_slope (b_slope_profile brk_example) i = Inr 0" for i
    by (simp add: brk_example_fields read_slope_None)
  have init: "brk_init brk_example 6 = ?st0"
    by (simp add: brk_init_def brk_example_fields eval_nat_numeral)
  have "braking_loop brk_example 6 1 ?st0 =
          braking_loop brk_example 6 (Suc 1) (braking_step brk_example 0 1 ?st0)"
  proof (rule braking_loop_go[OF _ rs])
    show "(1::nat) < 6" by simp
    show "\<not> brk_stop brk_example 1 (braking_step brk_example 0 1 ?st0)"
      unfolding brk_example_step1 by (simp add: brk_stop_def brk_example_fields)
  qed
  then have 1: "braking_loop brk_example 6 1 ?st0 = braking_loop brk_example 6 2 ?st1"
    unfolding brk_example_step1 by (simp only: Suc_1)
  have "braking_loop brk_example 6 2 ?st1 =
          Inr (brk_truncate (Suc 2) (braking_step brk_example 0 2 ?st1))"
  proof (rule braking_loop_stop[OF _ rs])
    show "(2::nat) < 6" by simp
    show "brk_stop brk_example 2 (braking_step brk_example 0 2 ?st1)"
      unfolding brk_example_step2 by (simp add: brk_stop_def)
  qed
  then have 2: "braking_loop brk_example 6 2 ?st1 = Inr brk_example_result"
    unfolding brk_example_step2 by (simp add: brk_truncate_def brk_example_result_def)
  show ?thesis
    unfolding calculate_braking_profile_eq brk_example_alloc
    by (simp only: sum.case init 1 2)
qed

lemma brk_example_short_run:
  "calculate_braking_profile brk_example_short = Inr brk_example_short_result"
proof -
  let ?st0 = "\<lparr> brk_distance = [0, 0], brk_speed = [3 / 2, 0],
       brk_deceleration = [0, (0::real)] \<rparr>"
  let ?st1 = "\<lparr> brk_distance = [0, 1 / 2], brk_speed = [3 / 2, 1 / 2],
       brk_deceleration = [0, - (1::real)] \<rparr>"
  have rs: "read_slope (b_slope_profile brk_example_short) i = Inr 0" for i
    by (simp add: brk_example_short_fields read_slope_None)
  have init: "brk_init brk_example_short 2 = ?st0"
    by (simp add: brk_init_def brk_example_short_fields eval_nat_numeral)
  have "braking_loop brk_example_short 2 1 ?st0 =
          braking_loop brk_example_short 2 (Suc 1) (braking_step brk_example_short 0 1 ?st0)"
  proof (rule braking_loop_go[OF _ rs])
    show "(1::nat) < 2" by simp
    show "\<not> brk_stop brk_example_short 1 (braking_step brk_example_short 0 1 ?st0)"
      unfolding brk_example_short_step1 by (simp add: brk_stop_def brk_example_short_fields)
  qed
  then have 1: "braking_loop brk_example_short 2 1 ?st0 = braking_loop brk_example_short 2 2 ?st1"
    unfolding brk_example_short_step1 by (simp only: Suc_1)
  have 2: "braking_loop brk_example_short 2 2 ?st1 = Inr ?st1"
    by (rule braking_loop_end) simp
  show ?thesis
    unfolding calculate_braking_profile_eq brk_example_short_alloc brk_example_short_result_def
    by (simp only: sum.case init 1 2)
qed

lemma brk_example_far_run:
  "calculate_braking_profile brk_example_far = Inr brk_example_far_result"
proof -
  let ?st0 = "\<lparr> brk_distance = [0, 0, 0], brk_speed = [3, 0, 0],
       brk_deceleration = [0, 0, (0::real)] \<rparr>"
  have rs: "read_slope (b_slope_profile brk_example_far) i = Inr 0" for i
    by (simp add: brk_example_far_fields read_slope_None)
  have init: "brk_init brk_example_far 3 = ?st0"
    by (simp add: brk_init_def brk_example_far_fields eval_nat_numeral)
  have "braking_loop brk_example_far 3 1 ?st0 =
          Inr (brk_truncate (Suc 1) (braking_step brk_example_far 0 1 ?st0))"
  proof (rule braking_loop_stop[OF _ rs])
    show "(1::nat) < 3" by simp
    show "brk_stop brk_example_far 1 (braking_step brk_example_far 0 1 ?st0)"
      unfolding brk_example_far_step1 by (simp add: brk_stop_def brk_example_far_fields)
  qed
  then have 1: "braking_loop brk_example_far 3 1 ?st0 = Inr brk_example_far_result"
    unfolding brk_example_far_step1 by (simp add: brk_truncate_def brk_example_far_result_def)
  show ?thesis
    unfolding calculate_braking_profile_eq brk_example_far_alloc
    by (simp only: sum.case init 1)
qed

text \<open>
  Claim C3, as stated, fails. Both runs have valid inputs and a finite distance, and neither
  ends at speed 0: the first reaches its distance of 2 metres in step 1 at 2 m/s, the second
  uses up its two requested entries at 0.5 m/s.
\<close>

theorem brk_last_speed_not_zero:
  "calculate_braking_profile brk_example_far = Inr brk_example_far_result \<and>
   0 \<le> b_initial_speed brk_example_far \<and> 0 < b_dt brk_example_far \<and>
   b_min_dec brk_example_far \<le> b_max_dec brk_example_far \<and> b_max_dec brk_example_far < 0 \<and>
   last (brk_speed brk_example_far_result) = 2 \<and>
   calculate_braking_profile brk_example_short = Inr brk_example_short_result \<and>
   0 \<le> b_initial_speed brk_example_short \<and> 0 < b_dt brk_example_short \<and>
   b_min_dec brk_example_short \<le> b_max_dec brk_example_short \<and>
   b_max_dec brk_example_short < 0 \<and>
   last (brk_speed brk_example_short_result) = 1 / 2"
  using brk_example_far_run brk_example_short_run
  by (simp add: brk_example_far_fields brk_example_short_fields
      brk_example_far_result_def brk_example_short_result_def)

text \<open>
  Claim C3, amended. For \<open>initial_speed \<ge> 0\<close> and negative deceleration bounds, every
  returned speed array is non-negative and non-increasing over its whole length, and its
  last entry is exactly 0 when the loop stopped before the requested step count with the
  distance not yet reached; a run that ends because \<open>s_i \<ge> distance\<close> or because the step
  count is used up may end at a positive speed.
\<close>

theorem brk_speed_nonincreasing:
  assumes "calculate_braking_profile P = Inr prof"
    and "alloc_steps (b_distance P) (b_dt P) = Inr n"
    and "0 \<le> b_initial_speed P" and "b_min_dec P < 0" and "b_max_dec P < 0"
  shows "list_all (\<lambda>x. 0 \<le> x) (brk_speed prof) \<and> sorted (rev (brk_speed prof)) \<and>
         (length (brk_speed prof) < n \<and> last (brk_distance prof) < b_distance P \<longrightarrow>
            last (brk_speed prof) = 0)"
proof -
  have prof: "braking_loop P n 1 (brk_init P n) = Inr prof"
    using assms(1,2) by (simp add: calculate_braking_profile_eq)
  have pos: "0 < n" using assms(2) by (rule alloc_steps_pos)
  have "(\<exists>st'. braking_loop P n 1 (brk_init P n) = Inr st' \<and> brk_decaying n n st') \<or>
         (\<exists>m s slope. 1 \<le> m \<and> m < n \<and> brk_decaying n m s \<and>
                 read_slope (b_slope_profile P) m = Inr slope \<and>
                 brk_stop P m (braking_step P slope m s) \<and>
                 braking_loop P n 1 (brk_init P n) =
                   Inr (brk_truncate (Suc m) (braking_step P slope m s))) \<or>
         (\<exists>m s e. 1 \<le> m \<and> m < n \<and> brk_decaying n m s \<and>
                 read_slope (b_slope_profile P) m = Inl e \<and>
                 braking_loop P n 1 (brk_init P n) = Inl e)"
  proof (rule braking_loop_cases[where I = "brk_decaying n"])
    show "brk_decaying n 1 (brk_init P n)" using pos assms(3) by (rule brk_decaying_init)
    show "1 \<le> n" using pos by simp
  next
    fix j s slope assume "j < n" "brk_decaying n j s"
    then show "brk_decaying n (Suc j) (braking_step P slope j s)"
      using assms(4,5) by (intro brk_decaying_step)
  qed
  then show ?thesis
  proof (elim disjE exE conjE)
    fix st' assume r: "braking_loop P n 1 (brk_init P n) = Inr st'" and b: "brk_decaying n n st'"
    have eq: "st' = prof" using r prof by simp
    have lens: "brk_lens n st'" using b by (simp add: brk_decaying_def)
    from brk_decaying_result[OF b] brk_truncate_full[OF lens] lens
    show ?thesis unfolding eq[symmetric] by (simp add: brk_lens_def)
  next
    fix m s slope
    assume m: "m < n" and b: "brk_decaying n m s"
      and stop: "brk_stop P m (braking_step P slope m s)"
      and r: "braking_loop P n 1 (brk_init P n) =
                Inr (brk_truncate (Suc m) (braking_step P slope m s))"
    let ?st = "braking_step P slope m s"
    have eq: "prof = brk_truncate (Suc m) ?st" using r prof by simp
    have b': "brk_decaying n (Suc m) ?st" using b m assms(4,5) by (rule brk_decaying_step)
    then have lens: "brk_lens n ?st" by (simp add: brk_decaying_def)
    note res = brk_decaying_result[OF b']
    have "brk_speed ?st ! m \<in> set (take (Suc m) (brk_speed ?st))"
      using m lens by (auto simp: in_set_conv_nth brk_lens_def intro!: exI[of _ m])
    moreover have "list_all (\<lambda>x. 0 \<le> x) (take (Suc m) (brk_speed ?st))"
      using b' by (simp add: brk_decaying_def)
    ultimately have nonneg: "0 \<le> brk_speed ?st ! m" by (simp add: list_all_iff)
    have "last (brk_speed prof) = 0" if "last (brk_distance prof) < b_distance P"
    proof -
      have "brk_distance ?st ! m < b_distance P"
        using that brk_truncate_last(2)[OF lens m] by (simp add: eq)
      with stop have "brk_speed ?st ! m \<le> 0" by (simp add: brk_stop_def)
      with nonneg have "brk_speed ?st ! m = 0" by simp
      then show ?thesis using brk_truncate_last(1)[OF lens m] by (simp add: eq)
    qed
    with res show ?thesis unfolding eq by simp
  next
    fix e assume "braking_loop P n 1 (brk_init P n) = Inl e"
    with prof show ?thesis by simp
  qed
qed

text \<open>The amended claim at the run over 5 metres: six entries requested, three returned,
  ending at speed 0 after 0.5 metres.\<close>

theorem brk_speed_nonincreasing_witness:
  "calculate_braking_profile brk_example = Inr brk_example_result \<and>
   alloc_steps (b_distance brk_example) (b_dt brk_example) = Inr 6 \<and>
   0 \<le> b_initial_speed brk_example \<and> b_min_dec brk_example < 0 \<and> b_max_dec brk_example < 0 \<and>
   length (brk_speed brk_example_result) < 6 \<and>
   last (brk_distance brk_example_result) < b_distance brk_example \<and>
   list_all (\<lambda>x. 0 \<le> x) (brk_speed brk_example_result) \<and>
   sorted (rev (brk_speed brk_example_result)) \<and>
   last (brk_speed brk_example_result) = 0"
proof -
  have h: "0 \<le> b_initial_speed brk_example" "b_min_dec brk_example < 0"
    "b_max_dec brk_example < 0"
    by (simp_all add: brk_example_fields)
  have short: "length (brk_speed brk_example_result) < 6"
    "last (brk_distance brk_example_result) < b_distance brk_example"
    by (simp_all add: brk_example_result_def brk_example_fields)
  from brk_speed_nonincreasing[OF brk_example_run brk_example_alloc h] short
  show ?thesis using brk_example_run brk_example_alloc h by simp
qed

lemma braking_step_cong:
  assumes "b_deceleration_profile P' = b_deceleration_profile P" "b_g P' = b_g P"
    "b_min_dec P' = b_min_dec P" "b_max_dec P' = b_max_dec P" "b_dt P' = b_dt P"
  shows "braking_step P' slope i st = braking_step P slope i st"
  unfolding braking_step_def assms ..

lemma braking_step_slope_profile_update [simp]:
  "braking_step (P \<lparr> b_slope_profile := x \<rparr>) slope i st = braking_step P slope i st"
  by (rule braking_step_cong) simp_all

lemma brk_stop_slope_profile_update [simp]:
  "brk_stop (P \<lparr> b_slope_profile := x \<rparr>) i st = brk_stop P i st"
  by (simp add: brk_stop_def)

lemma read_slope_Some:
  "0 < i \<Longrightarrow> read_slope (Some sp) i =
     (if i - 1 < length sp then Inr (sp ! (i - 1)) else Inl IndexError)"
  by (auto simp: read_slope_def np_get_def nat_diff_distrib' intro!: arg_cong[of _ _ "(!) sp"])

lemma read_slope_append:
  assumes "0 < i" "i \<le> length sp"
  shows "read_slope (Some (sp @ ext)) i = Inr (sp ! (i - 1))"
proof -
  have "i - 1 < length sp" using assms by simp
  then show ?thesis using assms(1) by (simp add: read_slope_Some nth_append)
qed

lemma length_brk_truncate:
  "brk_lens n st \<Longrightarrow> m \<le> n \<Longrightarrow> length (brk_speed (brk_truncate m st)) = m"
  by (simp add: brk_truncate_def brk_lens_def)

lemma braking_loop_length:
  assumes "braking_loop P n i st = Inr prof" "brk_lens n st" "i \<le> n"
  shows "min (Suc i) n \<le> length (brk_speed prof) \<and> length (brk_speed prof) \<le> n"
proof -
  have "(\<exists>st'. braking_loop P n i st = Inr st' \<and> brk_lens n st') \<or>
         (\<exists>m s slope. i \<le> m \<and> m < n \<and> brk_lens n s \<and>
                 read_slope (b_slope_profile P) m = Inr slope \<and>
                 brk_stop P m (braking_step P slope m s) \<and>
                 braking_loop P n i st = Inr (brk_truncate (Suc m) (braking_step P slope m s))) \<or>
         (\<exists>m s e. i \<le> m \<and> m < n \<and> brk_lens n s \<and>
                 read_slope (b_slope_profile P) m = Inl e \<and>
                 braking_loop P n i st = Inl e)"
    by (rule braking_loop_cases[where I = "\<lambda>j. brk_lens n"])
       (use assms(2,3) in \<open>auto intro: brk_lens_step\<close>)
  then show ?thesis
  proof (elim disjE exE conjE)
    fix st' assume "braking_loop P n i st = Inr st'" "brk_lens n st'"
    with assms(1) show ?thesis by (auto simp: brk_lens_def)
  next
    fix m s slope
    assume m: "i \<le> m" "m < n" and l: "brk_lens n s"
      and r: "braking_loop P n i st = Inr (brk_truncate (Suc m) (braking_step P slope m s))"
    have "length (brk_speed (brk_truncate (Suc m) (braking_step P slope m s))) = Suc m"
      using brk_lens_step[OF l] m(2) by (intro length_brk_truncate) auto
    with r assms(1) m show ?thesis by auto
  next
    fix e assume "braking_loop P n i st = Inl e"
    with assms(1) show ?thesis by simp
  qed
qed

lemma braking_loop_short_profile:
  assumes sp: "b_slope_profile P = Some sp"
  shows "0 < i \<Longrightarrow> i \<le> n \<Longrightarrow> i \<le> length sp + 1 \<Longrightarrow> brk_lens n st \<Longrightarrow>
         braking_loop (P \<lparr> b_slope_profile := Some (sp @ ext) \<rparr>) n i st = Inr prof' \<Longrightarrow>
         braking_loop P n i st =
           (if length (brk_speed prof') \<le> length sp + 1 then Inr prof' else Inl IndexError)"
proof (induction "n - i" arbitrary: i st)
  case 0
  then have "\<not> i < n" by simp
  then have "braking_loop P n i st = Inr st"
    and "braking_loop (P \<lparr> b_slope_profile := Some (sp @ ext) \<rparr>) n i st = Inr st"
    by (rule braking_loop_end)+
  moreover have "length (brk_speed st) = n" using "0.prems"(4) by (simp add: brk_lens_def)
  ultimately show ?case using "0.prems" "0.hyps" by auto
next
  case (Suc k)
  let ?P' = "P \<lparr> b_slope_profile := Some (sp @ ext) \<rparr>"
  have lt: "i < n" using Suc.hyps(2) by simp
  have sp': "b_slope_profile ?P' = Some (sp @ ext)" by simp
  show ?case
  proof (cases "i \<le> length sp")
    case False
    with Suc.prems(3) have i: "i = length sp + 1" by simp
    have "read_slope (b_slope_profile P) i = Inl IndexError"
      using i by (simp add: sp read_slope_Some)
    with lt have "braking_loop P n i st = Inl IndexError" by (rule braking_loop_error)
    moreover have "Suc i \<le> length (brk_speed prof')"
      using braking_loop_length[OF Suc.prems(5) Suc.prems(4)] lt by simp
    ultimately show ?thesis using i by simp
  next
    case True
    let ?slope = "sp ! (i - 1)"
    have r: "read_slope (b_slope_profile P) i = Inr ?slope"
      using True Suc.prems(1) by (simp add: sp read_slope_Some)
    have r': "read_slope (b_slope_profile ?P') i = Inr ?slope"
      unfolding sp' using Suc.prems(1) True by (rule read_slope_append)
    let ?st' = "braking_step P ?slope i st"
    have st': "braking_step ?P' ?slope i st = ?st'" by simp
    have lens': "brk_lens n ?st'" using Suc.prems(4) by (rule brk_lens_step)
    show ?thesis
    proof (cases "brk_stop P i ?st'")
      case stop: True
      have a: "braking_loop P n i st = Inr (brk_truncate (Suc i) ?st')"
        using lt r stop by (rule braking_loop_stop)
      have "brk_stop ?P' i (braking_step ?P' ?slope i st)" using stop by simp
      with lt r' have "braking_loop ?P' n i st = Inr (brk_truncate (Suc i) (braking_step ?P' ?slope i st))"
        by (rule braking_loop_stop)
      with Suc.prems(5) have p: "prof' = brk_truncate (Suc i) ?st'" by simp
      have "length (brk_speed prof') = Suc i"
        unfolding p using lens' lt by (intro length_brk_truncate) auto
      with True a p show ?thesis by simp
    next
      case go: False
      have a: "braking_loop P n i st = braking_loop P n (Suc i) ?st'"
        using lt r go by (rule braking_loop_go)
      have "\<not> brk_stop ?P' i (braking_step ?P' ?slope i st)" using go by simp
      with lt r' have "braking_loop ?P' n i st = braking_loop ?P' n (Suc i) (braking_step ?P' ?slope i st)"
        by (rule braking_loop_go)
      with Suc.prems(5) have b: "braking_loop ?P' n (Suc i) ?st' = Inr prof'" by simp
      have "k = n - Suc i" using Suc.hyps(2) by simp
      from Suc.hyps(1)[OF this _ _ _ lens' b] lt True
      show ?thesis unfolding a by simp
    qed
  qed
qed


lemma alloc_steps_Inr:
  assumes "alloc_steps d dt = Inr n"
  shows "0 < n \<and> int n = \<lfloor>d / dt\<rfloor> + 1"
proof -
  define k where "k = \<lfloor>d / dt\<rfloor> + 1"
  from assms have "\<not> k < 0" "k \<noteq> 0" "n = nat k"
    by (auto simp: alloc_steps_def Let_def k_def split: if_splits)
  then show ?thesis unfolding k_def[symmetric] by auto
qed

text \<open>With no slope profile, or with one that has an entry for each of the
  \<open>floor(distance / dt)\<close> steps, the braking integrator returns a profile.\<close>

lemma calculate_braking_profile_returns:
  assumes "0 \<le> b_distance P" "0 < b_dt P"
    and cover: "b_slope_profile P = None \<or>
                (\<exists>sp. b_slope_profile P = Some sp \<and> nat \<lfloor>b_distance P / b_dt P\<rfloor> \<le> length sp)"
  shows "\<exists>prof. calculate_braking_profile P = Inr prof"
proof -
  let ?n = "nat (\<lfloor>b_distance P / b_dt P\<rfloor> + 1)"
  have alloc: "alloc_steps (b_distance P) (b_dt P) = Inr ?n"
    using assms(1,2) by (rule alloc_steps_ok)
  have fl: "0 \<le> \<lfloor>b_distance P / b_dt P\<rfloor>" using assms(1,2) by simp
  then have one: "1 \<le> ?n" by linarith
  have ok: "\<exists>slope. read_slope (b_slope_profile P) m = Inr slope" if "1 \<le> m" "m < ?n" for m
  proof -
    from cover show ?thesis
    proof
      assume "b_slope_profile P = None"
      then show ?thesis by (simp add: read_slope_None)
    next
      assume "\<exists>sp. b_slope_profile P = Some sp \<and> nat \<lfloor>b_distance P / b_dt P\<rfloor> \<le> length sp"
      then obtain sp where sp: "b_slope_profile P = Some sp"
        and len: "nat \<lfloor>b_distance P / b_dt P\<rfloor> \<le> length sp" by blast
      have "m - 1 < nat \<lfloor>b_distance P / b_dt P\<rfloor>" using that fl by linarith
      with len have "m - 1 < length sp" by simp
      with that(1) show ?thesis by (simp add: sp read_slope_Some)
    qed
  qed
  have "(\<exists>st'. braking_loop P ?n 1 (brk_init P ?n) = Inr st' \<and> brk_lens ?n st') \<or>
         (\<exists>m s slope. 1 \<le> m \<and> m < ?n \<and> brk_lens ?n s \<and>
                 read_slope (b_slope_profile P) m = Inr slope \<and>
                 brk_stop P m (braking_step P slope m s) \<and>
                 braking_loop P ?n 1 (brk_init P ?n) =
                   Inr (brk_truncate (Suc m) (braking_step P slope m s))) \<or>
         (\<exists>m s e. 1 \<le> m \<and> m < ?n \<and> brk_lens ?n s \<and>
                 read_slope (b_slope_profile P) m = Inl e \<and>
                 braking_loop P ?n 1 (brk_init P ?n) = Inl e)"
    by (rule braking_loop_cases[where I = "\<lambda>j. brk_lens ?n"])
       (use one in \<open>auto intro: brk_lens_step brk_lens_init simp del: One_nat_def\<close>)
  then have "\<exists>prof. braking_loop P ?n 1 (brk_init P ?n) = Inr prof"
    using ok by (elim disjE exE conjE) (blast, blast, fastforce)
  then show ?thesis by (simp add: calculate_braking_profile_eq alloc)
qed

text \<open>
  Claim C9. Let the slope profile \<open>sp\<close> be given, and let the same call with the profile
  extended by further entries return \<open>prof'\<close>, so that \<open>length prof' - 1\<close> steps are
  executed when every slope read succeeds. If \<open>sp\<close> has fewer entries than that, the
  call raises \<^verbatim>\<open>IndexError\<close> from inside the loop; otherwise it returns \<open>prof'\<close>. At most
  \<open>floor(distance / dt)\<close> steps are executed.
\<close>

theorem brk_slope_profile_too_short:
  assumes "b_slope_profile P = Some sp"
    and "calculate_braking_profile (P \<lparr> b_slope_profile := Some (sp @ ext) \<rparr>) = Inr prof'"
  shows "(length sp < length (brk_speed prof') - 1 \<longrightarrow>
            calculate_braking_profile P = Inl IndexError) \<and>
         (length (brk_speed prof') - 1 \<le> length sp \<longrightarrow>
            calculate_braking_profile P = Inr prof') \<and>
         int (length (brk_speed prof')) - 1 \<le> \<lfloor>b_distance P / b_dt P\<rfloor>"
proof -
  let ?P' = "P \<lparr> b_slope_profile := Some (sp @ ext) \<rparr>"
  from assms(2) obtain n where alloc: "alloc_steps (b_distance P) (b_dt P) = Inr n"
    and loop': "braking_loop ?P' n 1 (brk_init ?P' n) = Inr prof'"
    by (auto simp: calculate_braking_profile_eq split: sum.splits)
  have init: "brk_init ?P' n = brk_init P n" by (simp add: brk_init_def)
  have n: "0 < n" "int n = \<lfloor>b_distance P / b_dt P\<rfloor> + 1"
    using alloc_steps_Inr[OF alloc] by simp_all
  have "braking_loop P n 1 (brk_init P n) =
           (if length (brk_speed prof') \<le> length sp + 1 then Inr prof' else Inl IndexError)"
    using n(1) loop' unfolding init
    by (intro braking_loop_short_profile[OF assms(1)] brk_lens_init) simp_all
  then have calc: "calculate_braking_profile P =
           (if length (brk_speed prof') \<le> length sp + 1 then Inr prof' else Inl IndexError)"
    by (simp add: calculate_braking_profile_eq alloc)
  have "length (brk_speed prof') \<le> n"
    using braking_loop_length[OF loop'[unfolded init] brk_lens_init] n(1) by simp
  then have "int (length (brk_speed prof')) - 1 \<le> \<lfloor>b_distance P / b_dt P\<rfloor>"
    using n(2) by linarith
  moreover have "length sp < length (brk_speed prof') - 1 \<longrightarrow>
            calculate_braking_profile P = Inl IndexError"
    unfolding calc by auto
  moreover have "length (brk_speed prof') - 1 \<le> length sp \<longrightarrow>
            calculate_braking_profile P = Inr prof'"
    unfolding calc by auto
  ultimately show ?thesis by blast
qed

lemma brk_example_sloped_run:
  assumes "read_slope (Some sp) 1 = Inr 0" "read_slope (Some sp) 2 = Inr 0"
  shows "calculate_braking_profile (brk_example_sloped sp) = Inr brk_example_result"
proof -
  let ?Q = "brk_example_sloped sp"
  let ?st0 = "\<lparr> brk_distance = [0, 0, 0, 0, 0, 0], brk_speed = [3 / 2, 0, 0, 0, 0, 0],
       brk_deceleration = [0, 0, 0, 0, 0, (0::real)] \<rparr>"
  let ?st1 = "\<lparr> brk_distance = [0, 1 / 2, 0, 0, 0, 0], brk_speed = [3 / 2, 1 / 2, 0, 0, 0, 0],
       brk_deceleration = [0, - 1, 0, 0, 0, (0::real)] \<rparr>"
  have sl: "b_slope_profile ?Q = Some sp" by (simp add: brk_example_sloped_def)
  have step: "braking_step ?Q slope i st = braking_step brk_example slope i st" for slope i st
    by (simp add: brk_example_sloped_def)
  have stop: "brk_stop ?Q i st = brk_stop brk_example i st" for i st
    by (simp add: brk_example_sloped_def)
  have alloc: "alloc_steps (b_distance ?Q) (b_dt ?Q) = Inr 6"
    by (simp add: alloc_steps_def brk_example_sloped_def brk_example_fields)
  have init: "brk_init ?Q 6 = ?st0"
    by (simp add: brk_init_def brk_example_sloped_def brk_example_fields eval_nat_numeral)
  have "braking_loop ?Q 6 1 ?st0 = braking_loop ?Q 6 (Suc 1) (braking_step ?Q 0 1 ?st0)"
  proof (rule braking_loop_go)
    show "(1::nat) < 6" by simp
    show "read_slope (b_slope_profile ?Q) 1 = Inr 0" unfolding sl by (rule assms(1))
    show "\<not> brk_stop ?Q 1 (braking_step ?Q 0 1 ?st0)"
      unfolding step stop brk_example_step1 by (simp add: brk_stop_def brk_example_fields)
  qed
  then have 1: "braking_loop ?Q 6 1 ?st0 = braking_loop ?Q 6 2 ?st1"
    unfolding step brk_example_step1 by (simp only: Suc_1)
  have "braking_loop ?Q 6 2 ?st1 = Inr (brk_truncate (Suc 2) (braking_step ?Q 0 2 ?st1))"
  proof (rule braking_loop_stop)
    show "(2::nat) < 6" by simp
    show "read_slope (b_slope_profile ?Q) 2 = Inr 0" unfolding sl by (rule assms(2))
    show "brk_stop ?Q 2 (braking_step ?Q 0 2 ?st1)"
      unfolding step stop brk_example_step2 by (simp add: brk_stop_def)
  qed
  then have 2: "braking_loop ?Q 6 2 ?st1 = Inr brk_example_result"
    unfolding step brk_example_step2 by (simp add: brk_truncate_def brk_example_result_def)
  show ?thesis
    unfolding calculate_braking_profile_eq alloc
    by (simp only: sum.case init 1 2)
qed

text \<open>The claim at the braking example, which executes two steps: with a one-entry slope
  profile the call raises, with a two-entry profile it returns.\<close>

theorem brk_slope_profile_too_short_witness:
  "b_slope_profile (brk_example_sloped [0]) = Some [0] \<and>
   calculate_braking_profile (brk_example_sloped [0] \<lparr> b_slope_profile := Some ([0] @ [0]) \<rparr>)
     = Inr brk_example_result \<and>
   length [0::real] < length (brk_speed brk_example_result) - 1 \<and>
   calculate_braking_profile (brk_example_sloped [0]) = Inl IndexError \<and>
   b_slope_profile (brk_example_sloped [0, 0]) = Some [0, 0] \<and>
   length (brk_speed brk_example_result) - 1 \<le> length [0, 0::real] \<and>
   calculate_braking_profile (brk_example_sloped [0, 0]) = Inr brk_example_result"
proof -
  have run2: "calculate_braking_profile (brk_example_sloped [0, 0]) = Inr brk_example_result"
    by (rule brk_example_sloped_run) (simp_all add: read_slope_Some)
  have s1: "b_slope_profile (brk_example_sloped [0]) = Some [0]"
    and s2: "b_slope_profile (brk_example_sloped [0, 0]) = Some [0, 0]"
    by (simp_all add: brk_example_sloped_def)
  have e1: "brk_example_sloped [0] \<lparr> b_slope_profile := Some ([0] @ [0]) \<rparr> =
            brk_example_sloped [0, 0]"
    and e2: "brk_example_sloped [0, 0] \<lparr> b_slope_profile := Some ([0, 0] @ []) \<rparr> =
            brk_example_sloped [0, 0]"
    by (simp_all add: brk_example_sloped_def)
  have r1: "calculate_braking_profile
              (brk_example_sloped [0] \<lparr> b_slope_profile := Some ([0] @ [0]) \<rparr>)
            = Inr brk_example_result"
    unfolding e1 by (rule run2)
  have r2: "calculate_braking_profile
              (brk_example_sloped [0, 0] \<lparr> b_slope_profile := Some ([0, 0] @ []) \<rparr>)
            = Inr brk_example_result"
    unfolding e2 by (rule run2)
  have len: "length (brk_speed brk_example_result) = 3"
    by (simp add: brk_example_result_def)
  from brk_slope_profile_too_short[OF s1 r1] brk_slope_profile_too_short[OF s2 r2]
  show ?thesis using r1 s1 s2 by (simp add: len)
qed

section \<open>Parameter checking of the integrators\<close>

lemma sqrt_nine: "sqrt 9 = 3"
  by (rule real_sqrt_unique) (simp_all add: power2_eq_square)

lemma alloc_steps_zero_dt: "alloc_steps d 0 = Inl ZeroDivisionError"
  by (simp add: alloc_steps_def)

lemma alloc_steps_negative_dt:
  assumes "dt < 0" "0 < d"
  shows "alloc_steps d dt = Inl ValueError \<or> alloc_steps d dt = Inl IndexError"
proof -
  have "d / dt < 0" using assms by (simp add: divide_pos_neg)
  then have "\<lfloor>d / dt\<rfloor> < 0" by (simp only: floor_less_zero)
  then have "\<lfloor>d / dt\<rfloor> + 1 < 0 \<or> \<lfloor>d / dt\<rfloor> + 1 = 0" by linarith
  with assms(1) show ?thesis by (auto simp: alloc_steps_def Let_def)
qed

lemma brk_example_invalid_fields:
  "b_initial_speed brk_example_invalid = 1" "b_distance brk_example_invalid = 3"
  "b_slope_profile brk_example_invalid = None" "b_deceleration_profile brk_example_invalid = - 1"
  "b_min_dec brk_example_invalid = 4" "b_max_dec brk_example_invalid = - 0.5"
  "b_dt brk_example_invalid = 1" "b_g brk_example_invalid = 9.81"
  by (simp_all add: brk_example_invalid_def)

lemma brk_example_invalid_step1:
  "braking_step brk_example_invalid 0 1
     \<lparr> brk_distance = [0, 0, 0, 0], brk_speed = [1, 0, 0, 0], brk_deceleration = [0, 0, 0, 0] \<rparr>
   = \<lparr> brk_distance = [0, 3, 0, 0], brk_speed = [1, 3, 0, 0], brk_deceleration = [0, 4, 0, 0] \<rparr>"
  by (subst braking_step_eval[where dec = 4 and v_prev = 1 and ?v1.0 = 3
        and v_i = 3 and s_i = 3])
     (simp_all add: brk_example_invalid_fields sqrt_nine)

lemma brk_example_invalid_run:
  "calculate_braking_profile brk_example_invalid = Inr brk_example_invalid_result"
proof -
  let ?st0 = "\<lparr> brk_distance = [0, 0, 0, 0], brk_speed = [1, 0, 0, 0],
       brk_deceleration = [0, 0, 0, (0::real)] \<rparr>"
  have rs: "read_slope (b_slope_profile brk_example_invalid) i = Inr 0" for i
    by (simp add: brk_example_invalid_fields read_slope_None)
  have alloc: "alloc_steps (b_distance brk_example_invalid) (b_dt brk_example_invalid) = Inr 4"
    by (simp add: alloc_steps_def brk_example_invalid_fields)
  have init: "brk_init brk_example_invalid 4 = ?st0"
    by (simp add: brk_init_def brk_example_invalid_fields eval_nat_numeral)
  have "braking_loop brk_example_invalid 4 1 ?st0 =
          Inr (brk_truncate (Suc 1) (braking_step brk_example_invalid 0 1 ?st0))"
  proof (rule braking_loop_stop[OF _ rs])
    show "(1::nat) < 4" by simp
    show "brk_stop brk_example_invalid 1 (braking_step brk_example_invalid 0 1 ?st0)"
      unfolding brk_example_invalid_step1 by (simp add: brk_stop_def brk_example_invalid_fields)
  qed
  then have 1: "braking_loop brk_example_invalid 4 1 ?st0 = Inr brk_example_invalid_result"
    unfolding brk_example_invalid_step1
    by (simp add: brk_truncate_def brk_example_invalid_result_def)
  show ?thesis
    unfolding calculate_braking_profile_eq alloc
    by (simp only: sum.case init 1)
qed

lemma acc_example_invalid_fields:
  "mass_kg (a_train_config acc_example_invalid) = 50000"
  "tractive_effort_n (a_train_config acc_example_invalid) = 0"
  "a_slope_percent acc_example_invalid = 1" "a_distance acc_example_invalid = 1"
  "a_v_max acc_example_invalid = 55" "a_dt acc_example_invalid = 1"
  "a_A acc_example_invalid = 1500"
  "a_B acc_example_invalid = 2.5" "a_C acc_example_invalid = 0.008"
  "a_adhesion_coef acc_example_invalid = 0.25"
  "a_tunnel_factor acc_example_invalid = 0" "a_curve_resistance acc_example_invalid = 1000"
  "a_max_acc acc_example_invalid = 1"
  by (simp_all add: acc_example_invalid_def)

lemma acc_example_invalid_step1:
  "accel_step acc_example_invalid 1
     \<lparr> acc_distance = [0, 0], acc_speed = [0, 0],
       acc_acceleration = [0, 0], acc_tractive_effort = [0, 0] \<rparr>
   = \<lparr> acc_distance = [0, 0], acc_speed = [0, 0],
       acc_acceleration = [0, - 0.1481], acc_tractive_effort = [0, 0] \<rparr>"
  by (subst accel_step_eval[where v_prev = 0 and F_total_res = 7405 and F_trac_i = 0
        and a_i = "- 0.1481" and v_i = 0 and s_i = 0])
     (simp_all add: acc_example_invalid_fields g_def)

lemma acc_example_invalid_run:
  "calculate_acceleration_profile acc_example_invalid = Inr acc_example_invalid_result"
proof -
  let ?st0 = "\<lparr> acc_distance = [0, 0], acc_speed = [0, 0],
       acc_acceleration = [0, 0], acc_tractive_effort = [0, (0::real)] \<rparr>"
  let ?st1 = "\<lparr> acc_distance = [0, 0], acc_speed = [0, 0],
       acc_acceleration = [0, - 0.1481], acc_tractive_effort = [0, (0::real)] \<rparr>"
  have alloc: "alloc_steps (a_distance acc_example_invalid) (a_dt acc_example_invalid) = Inr 2"
    by (simp add: alloc_steps_def acc_example_invalid_fields)
  have init: "acc_init 2 = ?st0" by (simp add: acc_init_def eval_nat_numeral)
  have "accel_loop acc_example_invalid 2 1 ?st0 =
          accel_loop acc_example_invalid 2 (Suc 1) (accel_step acc_example_invalid 1 ?st0)"
  proof (rule accel_loop_go)
    show "(1::nat) < 2" by simp
    show "\<not> a_distance acc_example_invalid
             \<le> acc_distance (accel_step acc_example_invalid 1 ?st0) ! 1"
      unfolding acc_example_invalid_step1 by (simp add: acc_example_invalid_fields)
  qed
  then have 1: "accel_loop acc_example_invalid 2 1 ?st0 = accel_loop acc_example_invalid 2 2 ?st1"
    unfolding acc_example_invalid_step1 by (simp only: Suc_1)
  have 2: "accel_loop acc_example_invalid 2 2 ?st1 = ?st1"
    by (rule accel_loop_end) simp
  show ?thesis
    unfolding calculate_acceleration_profile_eq alloc acc_example_invalid_result_def
    by (simp only: sum.case init 1 2)
qed

text \<open>
  Claim C2, as stated, fails: neither integrator checks its physics parameters. A braking
  call with \<open>min_dec = 4\<close> (not negative, and above \<open>max_dec\<close>) and an acceleration call with
  \<open>tractive_effort_n = 0\<close> both run their loop and return a profile.
\<close>

theorem integrators_accept_invalid_parameters:
  "0 \<le> b_min_dec brk_example_invalid \<and>
   b_max_dec brk_example_invalid < b_min_dec brk_example_invalid \<and>
   calculate_braking_profile brk_example_invalid = Inr brk_example_invalid_result \<and>
   tractive_effort_n (a_train_config acc_example_invalid) \<le> 0 \<and>
   calculate_acceleration_profile acc_example_invalid = Inr acc_example_invalid_result"
  using brk_example_invalid_run acc_example_invalid_run
  by (simp add: brk_example_invalid_fields acc_example_invalid_fields)

text \<open>
  Claim C2, amended. Only the time step is ever rejected, and only through the step count
  \<^verbatim>\<open>int(distance // dt) + 1\<close> and the allocation that follows: \<open>dt = 0\<close> raises
  \<^verbatim>\<open>ZeroDivisionError\<close>, and \<open>dt < 0\<close> with \<open>distance > 0\<close> raises \<^verbatim>\<open>ValueError\<close> or
  \<^verbatim>\<open>IndexError\<close>, both before the loop. The mass (when not zero), the tractive effort and
  the deceleration bounds are not checked: for \<open>dt > 0\<close> and \<open>distance \<ge> 0\<close> the acceleration
  integrator returns a profile, and so does the braking integrator without a slope profile.
\<close>

theorem integrators_reject_only_time_step:
  "(a_dt P = 0 \<longrightarrow> calculate_acceleration_profile P = Inl ZeroDivisionError) \<and>
   (b_dt Q = 0 \<longrightarrow> calculate_braking_profile Q = Inl ZeroDivisionError) \<and>
   (a_dt P < 0 \<and> 0 < a_distance P \<longrightarrow>
      calculate_acceleration_profile P = Inl ValueError \<or>
      calculate_acceleration_profile P = Inl IndexError) \<and>
   (b_dt Q < 0 \<and> 0 < b_distance Q \<longrightarrow>
      calculate_braking_profile Q = Inl ValueError \<or>
      calculate_braking_profile Q = Inl IndexError) \<and>
   (0 < a_dt P \<and> 0 \<le> a_distance P \<and> mass_kg (a_train_config P) \<noteq> 0 \<longrightarrow>
      (\<exists>prof. calculate_acceleration_profile P = Inr prof)) \<and>
   (0 < b_dt Q \<and> 0 \<le> b_distance Q \<and> b_slope_profile Q = None \<longrightarrow>
      (\<exists>prof. calculate_braking_profile Q = Inr prof))"
proof (intro conjI impI)
  assume "a_dt P = 0"
  then show "calculate_acceleration_profile P = Inl ZeroDivisionError"
    by (simp add: calculate_acceleration_profile_eq alloc_steps_zero_dt)
next
  assume "b_dt Q = 0"
  then show "calculate_braking_profile Q = Inl ZeroDivisionError"
    by (simp add: calculate_braking_profile_eq alloc_steps_zero_dt)
next
  assume "a_dt P < 0 \<and> 0 < a_distance P"
  then have "alloc_steps (a_distance P) (a_dt P) = Inl ValueError \<or>
             alloc_steps (a_distance P) (a_dt P) = Inl IndexError"
    by (intro alloc_steps_negative_dt) simp_all
  then show "calculate_acceleration_profile P = Inl ValueError \<or>
      calculate_acceleration_profile P = Inl IndexError"
    by (auto simp: calculate_acceleration_profile_eq)
next
  assume "b_dt Q < 0 \<and> 0 < b_distance Q"
  then have "alloc_steps (b_distance Q) (b_dt Q) = Inl ValueError \<or>
             alloc_steps (b_distance Q) (b_dt Q) = Inl IndexError"
    by (intro alloc_steps_negative_dt) simp_all
  then show "calculate_braking_profile Q = Inl ValueError \<or>
      calculate_braking_profile Q = Inl IndexError"
    by (auto simp: calculate_braking_profile_eq)
next
  assume "0 < a_dt P \<and> 0 \<le> a_distance P \<and> mass_kg (a_train_config P) \<noteq> 0"
  then show "\<exists>prof. calculate_acceleration_profile P = Inr prof"
    by (intro calculate_acceleration_profile_returns) simp_all
next
  assume "0 < b_dt Q \<and> 0 \<le> b_distance Q \<and> b_slope_profile Q = None"
  then show "\<exists>prof. calculate_braking_profile Q = Inr prof"
    by (intro calculate_braking_profile_returns) simp_all
qed


text \<open>The amended claim at the examples with the time step set to 0 and to -1, and at the
  two calls with invalid parameters and a time step of 1.\<close>

theorem integrators_reject_only_time_step_witness:
  "a_dt (acc_example \<lparr> a_dt := 0 \<rparr>) = 0 \<and>
   calculate_acceleration_profile (acc_example \<lparr> a_dt := 0 \<rparr>) = Inl ZeroDivisionError \<and>
   b_dt (brk_example \<lparr> b_dt := 0 \<rparr>) = 0 \<and>
   calculate_braking_profile (brk_example \<lparr> b_dt := 0 \<rparr>) = Inl ZeroDivisionError \<and>
   a_dt (acc_example \<lparr> a_dt := - 1 \<rparr>) < 0 \<and> 0 < a_distance (acc_example \<lparr> a_dt := - 1 \<rparr>) \<and>
   calculate_acceleration_profile (acc_example \<lparr> a_dt := - 1 \<rparr>) = Inl ValueError \<and>
   b_dt (brk_example \<lparr> b_dt := - 1 \<rparr>) < 0 \<and> 0 < b_distance (brk_example \<lparr> b_dt := - 1 \<rparr>) \<and>
   calculate_braking_profile (brk_example \<lparr> b_dt := - 1 \<rparr>) = Inl ValueError \<and>
   0 < a_dt acc_example_invalid \<and> 0 \<le> a_distance acc_example_invalid \<and>
   mass_kg (a_train_config acc_example_invalid) \<noteq> 0 \<and>
   calculate_acceleration_profile acc_example_invalid = Inr acc_example_invalid_result \<and>
   0 < b_dt brk_example_invalid \<and> 0 \<le> b_distance brk_example_invalid \<and>
   b_slope_profile brk_example_invalid = None \<and>
   calculate_braking_profile brk_example_invalid = Inr brk_example_invalid_result"
proof -
  let ?P0 = "acc_example \<lparr> a_dt := 0 \<rparr>" and ?Q0 = "brk_example \<lparr> b_dt := 0 \<rparr>"
  let ?P1 = "acc_example \<lparr> a_dt := - 1 \<rparr>" and ?Q1 = "brk_example \<lparr> b_dt := - 1 \<rparr>"
  have z: "a_dt ?P0 = 0" "b_dt ?Q0 = 0" by simp_all
  have n: "a_dt ?P1 < 0" "0 < a_distance ?P1" "b_dt ?Q1 < 0" "0 < b_distance ?Q1"
    by (simp_all add: acc_example_fields brk_example_fields)
  have v: "0 < a_dt acc_example_invalid" "0 \<le> a_distance acc_example_invalid"
    "mass_kg (a_train_config acc_example_invalid) \<noteq> 0"
    "0 < b_dt brk_example_invalid" "0 \<le> b_distance brk_example_invalid"
    "b_slope_profile brk_example_invalid = None"
    by (simp_all add: acc_example_invalid_fields brk_example_invalid_fields)
  have a1: "alloc_steps (a_distance ?P1) (a_dt ?P1) \<noteq> Inl IndexError"
    by (simp add: alloc_steps_def acc_example_fields)
  have b1: "alloc_steps (b_distance ?Q1) (b_dt ?Q1) \<noteq> Inl IndexError"
    by (simp add: alloc_steps_def brk_example_fields)
  have nP: "calculate_acceleration_profile ?P1 \<noteq> Inl IndexError"
    using a1 by (auto simp: calculate_acceleration_profile_eq split: sum.splits)
  have nQ: "calculate_braking_profile ?Q1 \<noteq> Inl IndexError"
  proof -
    have "alloc_steps (b_distance ?Q1) (b_dt ?Q1) = Inl ValueError"
      by (simp add: alloc_steps_def brk_example_fields)
    then show ?thesis by (simp add: calculate_braking_profile_eq)
  qed
  from integrators_reject_only_time_step[of ?P0 ?Q0] z
  have r0: "calculate_acceleration_profile ?P0 = Inl ZeroDivisionError"
    "calculate_braking_profile ?Q0 = Inl ZeroDivisionError" by blast+
  from integrators_reject_only_time_step[of ?P1 ?Q1] n nP nQ
  have r1: "calculate_acceleration_profile ?P1 = Inl ValueError"
    "calculate_braking_profile ?Q1 = Inl ValueError" by blast+
  from z n v r0 r1 acc_example_invalid_run brk_example_invalid_run
  show ?thesis by (intro conjI)
qed

section \<open>Block occupancy: index checks\<close>

lemma occ_example_fields:
  "o_speed_profile occ_example = [10, 20, 30, 40, 50, 60, 70]"
  "o_time_profile occ_example = [0, 1, 2, 3, 4, 5, 6]"
  "o_release_speed occ_example = [10]" "o_train_length occ_example = 1"
  "o_overlap occ_example = [1]" "o_release_time occ_example = [1]"
  "o_setting_time occ_example = [1]" "o_reserve_before_arrival occ_example = 1"
  "o_v_tol occ_example = 0.1"
  by (simp_all add: occ_example_def)

lemma py_round_1: "py_round 1 = 1"
  by (simp add: py_round_def)

lemma py_int_1: "py_int 1 = 1"
  by (simp add: py_int_def)

lemma upt_7: "[0..<7] = [0, 1, 2, 3, 4, 5, 6]"
  by (simp add: upt_rec eval_nat_numeral)

lemma occ_example_booking: "occ_booking occ_example 0 bp = Inr (Some 0, Some 0, Some (- 1))"
  by (simp add: occ_booking_def occ_example_fields bind_err_def np_get_def upt_7 Let_def)

lemma occ_example_arrival:
  "occ_arrival occ_example (- 1) = Inr (Some 6)"
  "occ_arrival occ_example (- 8) = Inl IndexError"
  "occ_arrival occ_example 7 = Inr None"
  by (simp_all add: occ_arrival_def occ_example_fields bind_err_def np_get_def)

lemma occ_example_release:
  "occ_release occ_example 0 (- 1) = Inr (Some 2)"
  "occ_release occ_example 0 (- 3) = Inr (Some 7)"
  by (simp_all add: occ_release_def occ_example_fields bind_err_def np_get_def py_round_1
      py_int_1 Let_def)

text \<open>
  Claim C4 does not hold of the code at block positions below 0: the guards test only
  \<^verbatim>\<open>bp < len(time_profile)\<close>. At position \<open>-1\<close> the arrival cell is the last entry of
  \<^verbatim>\<open>time_profile\<close> (6) instead of NaN, at position \<open>-3\<close> the release index is \<open>-1\<close> and the
  release cell is \<open>6 + 1\<close>, and at position \<open>-8\<close> the read \<^verbatim>\<open>time_profile[-8]\<close> raises
  \<^verbatim>\<open>IndexError\<close>.
\<close>

theorem occ_negative_position_unchecked:
  "calculate_block_occupancy [- 1] occ_example =
     Inr [\<lparr> mb_speed_diff = Some 0, mb_index = Some 0, mb_booking = Some (- 1),
            mb_arrival = Some 6, mb_release = Some 2 \<rparr>] \<and>
   occ_release occ_example 0 (- 3) = Inr (Some 7) \<and>
   calculate_block_occupancy [- 8] occ_example = Inl IndexError"
  by (simp add: calculate_block_occupancy_def occ_row_def bind_err_def
      occ_example_booking occ_example_arrival occ_example_release)

text \<open>At a position that is not negative the guards do what the claim says: the arrival
  read never raises, and a position beyond the profile gives NaN.\<close>

lemma occ_arrival_nonneg:
  "0 \<le> bp \<Longrightarrow> occ_arrival Q bp =
     Inr (if bp < int (length (o_time_profile Q)) then Some (o_time_profile Q ! nat bp) else None)"
  by (simp add: occ_arrival_def bind_err_def np_get_def)

section \<open>Equivalent slope and curve resistance: properties\<close>

lemma inkl_intv_overlaps:
  "inkl_intv p pos0 pos1 = filter (overlaps p pos0 pos1) [0..<length p - 1]"
  unfolding inkl_intv_def
  by (rule filter_cong) (auto simp: overlaps_def nth_tl nth_butlast)

lemma inkl_intv_bound: "j \<in> set (inkl_intv p pos0 pos1) \<Longrightarrow> j < length p - 1"
  by (simp add: inkl_intv_def)

lemma np_get_nat: "j < length xs \<Longrightarrow> np_get xs (int j) = Inr (xs ! j)"
  by (simp add: np_get_def)

lemma list_first_mid_last:
  "1 < length J \<Longrightarrow> J = hd J # butlast (tl J) @ [last J]"
  by (cases J) (auto simp: neq_Nil_conv)

text \<open>The loop over the intervals after the first one.\<close>

lemma slope_loop_rest:
  assumes "0 < i" "i + length M = n - 1" "\<forall>j\<in>set (M @ [b]). j < length lutning"
  shows "slope_loop lutning_pos lutning pos0 pos1 n i (M @ [b]) total' =
           Inr (total' + (\<Sum>j\<leftarrow>M. lutning ! j * (lutning_pos ! (j + 1) - lutning_pos ! j))
                + lutning ! b * (pos1 - lutning_pos ! b))"
  using assms
proof (induction M arbitrary: i total')
  case Nil
  then show ?case by (simp add: np_get_nat)
next
  case (Cons m M)
  have i: "i \<noteq> 0" "i \<noteq> n - 1" using Cons.prems(1,2) by auto
  have m: "m < length lutning" using Cons.prems(3) by simp
  have "slope_loop lutning_pos lutning pos0 pos1 n i ((m # M) @ [b]) total' =
        slope_loop lutning_pos lutning pos0 pos1 n (i + 1) (M @ [b])
          (total' + lutning ! m * (lutning_pos ! (m + 1) - lutning_pos ! m))"
    using i m by (simp add: np_get_nat)
  also have "\<dots> = Inr (total' + lutning ! m * (lutning_pos ! (m + 1) - lutning_pos ! m)
                + (\<Sum>j\<leftarrow>M. lutning ! j * (lutning_pos ! (j + 1) - lutning_pos ! j))
                + lutning ! b * (pos1 - lutning_pos ! b))"
    using Cons.prems by (intro Cons.IH) auto
  finally show ?case by (simp add: add.assoc)
qed

lemma slope_loop_clipped_sum:
  assumes "1 < length J" "\<forall>j\<in>set J. j < length lutning"
  shows "slope_loop lutning_pos lutning pos0 pos1 (length J) 0 J 0 =
           Inr (clipped_sum (\<lambda>j. lutning ! j) lutning_pos pos0 pos1 J)"
proof -
  let ?M = "butlast (tl J)"
  have J: "J = hd J # ?M @ [last J]" using assms(1) by (rule list_first_mid_last)
  have len: "length J = Suc (Suc (length ?M))" by (subst J) simp
  have hd: "hd J < length lutning" using assms J by (metis list.set_intros(1))
  have rest: "\<forall>j\<in>set (?M @ [last J]). j < length lutning"
    using assms(2) J by (metis list.set_intros(2))
  have "slope_loop lutning_pos lutning pos0 pos1 (length J) 0 (hd J # ?M @ [last J]) 0 =
        slope_loop lutning_pos lutning pos0 pos1 (length J) 1 (?M @ [last J])
          (lutning ! hd J * (lutning_pos ! (hd J + 1) - pos0))"
    using hd by (simp add: np_get_nat)
  also have "\<dots> = Inr (lutning ! hd J * (lutning_pos ! (hd J + 1) - pos0)
        + (\<Sum>j\<leftarrow>?M. lutning ! j * (lutning_pos ! (j + 1) - lutning_pos ! j))
        + lutning ! last J * (pos1 - lutning_pos ! last J))"
    by (rule slope_loop_rest) (use rest len in auto)
  finally show ?thesis unfolding clipped_sum_def using J by simp
qed

lemma equivalent_slope_at_spec:
  assumes "valid_profile lutning_pos lutning"
  shows "equivalent_slope_at lutning_pos lutning train_length xp =
           Inr (equivalent_slope_spec lutning_pos lutning (xp - train_length) xp)"
proof -
  have len: "length lutning = length lutning_pos - 1"
    using assms by (simp add: valid_profile_def)
  let ?J = "inkl_intv lutning_pos (xp - train_length) xp"
  have J: "?J = filter (overlaps lutning_pos (xp - train_length) xp) [0..<length lutning]"
    by (simp add: inkl_intv_overlaps len)
  have bound: "\<forall>j\<in>set ?J. j < length lutning"
    using inkl_intv_bound len by auto
  consider "length ?J = 1" | "1 < length ?J" | "length ?J = 0" by linarith
  then show ?thesis
  proof cases
    case 1
    then have "?J ! 0 \<in> set ?J" by (intro nth_mem) simp
    with bound have "?J ! 0 < length lutning" by blast
    moreover have "hd ?J = ?J ! 0" using 1 by (intro hd_conv_nth) auto
    ultimately show ?thesis
      using 1 unfolding equivalent_slope_at_def equivalent_slope_spec_def J[symmetric]
      by (simp add: np_get_nat Let_def)
  next
    case 2
    from slope_loop_clipped_sum[OF 2 bound] 2 show ?thesis
      unfolding equivalent_slope_at_def equivalent_slope_spec_def J[symmetric]
      by (simp add: Let_def)
  next
    case 3
    then show ?thesis
      unfolding equivalent_slope_at_def equivalent_slope_spec_def J[symmetric]
      by (simp add: Let_def)
  qed
qed

lemma collect_map_Inr: "collect (map (\<lambda>x. Inr (f x)) xs) = Inr (map f xs)"
  by (induction xs) simp_all

lemma calculate_equivalent_slope_spec:
  assumes "valid_profile lutning_pos lutning"
  shows "calculate_equivalent_slope lutning_pos lutning x_pos train_length =
           Inr (map (\<lambda>xp. equivalent_slope_spec lutning_pos lutning (xp - train_length) xp) x_pos)"
  unfolding calculate_equivalent_slope_def
  by (simp add: equivalent_slope_at_spec[OF assms, abs_def] collect_map_Inr)

text \<open>
  Claim C6. For a valid slope profile, the equivalent slope at a sample position is the
  value of the single overlapped interval, the clipped length-weighted sum over several
  overlapped intervals divided by the occupied length, and NaN when no interval is
  overlapped.
\<close>

theorem equivalent_slope_as_specified:
  assumes "valid_profile lutning_pos lutning"
  shows "equivalent_slope_at lutning_pos lutning train_length xp =
           Inr (equivalent_slope_spec lutning_pos lutning (xp - train_length) xp) \<and>
         calculate_equivalent_slope lutning_pos lutning x_pos train_length =
           Inr (map (\<lambda>xp. equivalent_slope_spec lutning_pos lutning (xp - train_length) xp) x_pos)"
proof
  show "equivalent_slope_at lutning_pos lutning train_length xp =
           Inr (equivalent_slope_spec lutning_pos lutning (xp - train_length) xp)"
    using assms by (rule equivalent_slope_at_spec)
  show "calculate_equivalent_slope lutning_pos lutning x_pos train_length =
           Inr (map (\<lambda>xp. equivalent_slope_spec lutning_pos lutning (xp - train_length) xp) x_pos)"
    using assms by (rule calculate_equivalent_slope_spec)
qed

lemma upt_2: "[0..<2] = [0, 1]"
  by (simp add: upt_rec eval_nat_numeral)

lemma slope_scenario_valid: "valid_profile [0, 500, 1000] [0.01, 0.02]"
  by (simp add: valid_profile_def)

text \<open>The claim at the profile of \<^verbatim>\<open>test_calculate_equivalent_slope\<close> with a train of 100
  metres: one interval at 0, two at 500 and at 550, none at 1100.\<close>

theorem equivalent_slope_as_specified_witness:
  "valid_profile [0, 500, 1000] [0.01, 0.02] \<and>
   equivalent_slope_at [0, 500, 1000] [0.01, 0.02] 100 550 = Inr (Some 0.015) \<and>
   calculate_equivalent_slope [0, 500, 1000] [0.01, 0.02] [0, 500, 550, 1100] 100 =
     Inr [Some 0.01, Some 0.01, Some 0.015, None]"
proof -
  have sp: "equivalent_slope_spec [0, 500, 1000] [0.01, 0.02] (0 - 100) 0 = Some 0.01"
    "equivalent_slope_spec [0, 500, 1000] [0.01, 0.02] (500 - 100) 500 = Some 0.01"
    "equivalent_slope_spec [0, 500, 1000] [0.01, 0.02] (550 - 100) 550 = Some 0.015"
    "equivalent_slope_spec [0, 500, 1000] [0.01, 0.02] (1100 - 100) 1100 = None"
    by (simp_all add: equivalent_slope_spec_def overlaps_def clipped_sum_def upt_2)
  from equivalent_slope_as_specified[OF slope_scenario_valid, of 100 550 "[0, 500, 550, 1100]"]
  show ?thesis
    using slope_scenario_valid sp by simp
qed

lemma curve_loop_rest:
  assumes "0 < i" "i + length M = n - 1" "\<forall>j\<in>set (M @ [b]). j < length curve_radius"
  shows "curve_loop curve_pos curve_radius train_mass pos0 pos1 n i (M @ [b]) curve_force =
           Inr (curve_force
                + (\<Sum>j\<leftarrow>M. unit_resistance (curve_radius ! j) * train_mass / (pos1 - pos0)
                             * (curve_pos ! (j + 1) - curve_pos ! j))
                + unit_resistance (curve_radius ! b) * train_mass / (pos1 - pos0)
                    * (pos1 - curve_pos ! b))"
  using assms
proof (induction M arbitrary: i curve_force)
  case Nil
  then show ?case by (simp add: np_get_nat unit_resistance_def)
next
  case (Cons m M)
  have i: "i \<noteq> 0" "i \<noteq> n - 1" using Cons.prems(1,2) by auto
  have m: "m < length curve_radius" using Cons.prems(3) by simp
  let ?seg = "unit_resistance (curve_radius ! m) * train_mass / (pos1 - pos0)
                * (curve_pos ! (m + 1) - curve_pos ! m)"
  have "curve_loop curve_pos curve_radius train_mass pos0 pos1 n i ((m # M) @ [b]) curve_force =
        curve_loop curve_pos curve_radius train_mass pos0 pos1 n (i + 1) (M @ [b])
          (curve_force + ?seg)"
    using i m by (simp add: np_get_nat unit_resistance_def)
  also have "\<dots> = Inr (curve_force + ?seg
                + (\<Sum>j\<leftarrow>M. unit_resistance (curve_radius ! j) * train_mass / (pos1 - pos0)
                             * (curve_pos ! (j + 1) - curve_pos ! j))
                + unit_resistance (curve_radius ! b) * train_mass / (pos1 - pos0)
                    * (pos1 - curve_pos ! b))"
    using Cons.prems by (intro Cons.IH) auto
  finally show ?case by (simp add: add.assoc)
qed

lemma curve_loop_clipped_sum:
  assumes "1 < length J" "\<forall>j\<in>set J. j < length curve_radius"
  shows "curve_loop curve_pos curve_radius train_mass pos0 pos1 (length J) 0 J 0 =
           Inr (clipped_sum (\<lambda>j. unit_resistance (curve_radius ! j) * train_mass / (pos1 - pos0))
                  curve_pos pos0 pos1 J)"
proof -
  let ?M = "butlast (tl J)"
  let ?f = "\<lambda>j. unit_resistance (curve_radius ! j) * train_mass / (pos1 - pos0)"
  have J: "J = hd J # ?M @ [last J]" using assms(1) by (rule list_first_mid_last)
  have len: "length J = Suc (Suc (length ?M))" by (subst J) simp
  have hd: "hd J < length curve_radius" using assms J by (metis list.set_intros(1))
  have rest: "\<forall>j\<in>set (?M @ [last J]). j < length curve_radius"
    using assms(2) J by (metis list.set_intros(2))
  have "curve_loop curve_pos curve_radius train_mass pos0 pos1 (length J) 0
          (hd J # ?M @ [last J]) 0 =
        curve_loop curve_pos curve_radius train_mass pos0 pos1 (length J) 1 (?M @ [last J])
          (?f (hd J) * (curve_pos ! (hd J + 1) - pos0))"
    using hd by (simp add: np_get_nat unit_resistance_def)
  also have "\<dots> = Inr (?f (hd J) * (curve_pos ! (hd J + 1) - pos0)
        + (\<Sum>j\<leftarrow>?M. ?f j * (curve_pos ! (j + 1) - curve_pos ! j))
        + ?f (last J) * (pos1 - curve_pos ! last J))"
    by (rule curve_loop_rest) (use rest len in auto)
  finally show ?thesis unfolding clipped_sum_def using J by simp
qed

lemma curve_resistance_at_spec:
  assumes "valid_profile curve_pos curve_radius"
  shows "curve_resistance_at curve_pos curve_radius train_length train_mass xp =
           Inr (curve_resistance_spec curve_pos curve_radius train_mass (xp - train_length) xp)"
proof -
  have len: "length curve_radius = length curve_pos - 1"
    using assms by (simp add: valid_profile_def)
  let ?J = "inkl_intv curve_pos (xp - train_length) xp"
  have J: "?J = filter (overlaps curve_pos (xp - train_length) xp) [0..<length curve_radius]"
    by (simp add: inkl_intv_overlaps len)
  have bound: "\<forall>j\<in>set ?J. j < length curve_radius"
    using inkl_intv_bound len by auto
  consider "length ?J = 1" | "1 < length ?J" | "length ?J = 0" by linarith
  then show ?thesis
  proof cases
    case 1
    then have "?J ! 0 \<in> set ?J" by (intro nth_mem) simp
    with bound have "?J ! 0 < length curve_radius" by blast
    moreover have "hd ?J = ?J ! 0" using 1 by (intro hd_conv_nth) auto
    ultimately show ?thesis
      using 1 unfolding curve_resistance_at_def curve_resistance_spec_def J[symmetric]
      by (simp add: np_get_nat Let_def unit_resistance_def)
  next
    case 2
    from curve_loop_clipped_sum[OF 2 bound] 2 show ?thesis
      unfolding curve_resistance_at_def curve_resistance_spec_def J[symmetric]
      by (simp add: Let_def)
  next
    case 3
    then show ?thesis
      unfolding curve_resistance_at_def curve_resistance_spec_def J[symmetric]
      by (simp add: Let_def)
  qed
qed


lemma clipped_sum_divide:
  "clipped_sum (\<lambda>j. f j / c) positions start end J = clipped_sum f positions start end J / c"
proof -
  have "(\<Sum>j\<leftarrow>xs. f j / c * w j) = (\<Sum>j\<leftarrow>xs. f j * w j) / c" for xs :: "nat list" and w
    by (induction xs) (simp_all add: add_divide_distrib)
  then show ?thesis by (simp add: clipped_sum_def add_divide_distrib)
qed

lemma curve_scenario_valid: "valid_profile [0, 500, 1000] [500, 200]"
  by (simp add: valid_profile_def)

lemma curve_scenario_intervals: "inkl_intv [0, 500, 1000] 450 550 = [0, 1]"
  by (simp add: inkl_intv_overlaps overlaps_def upt_2)

lemma curve_scenario_value:
  "curve_resistance_at [0, 500, 1000] [500, 200] 100 50000 550 = Inr (Some (1627975 / 1513))"
  unfolding curve_resistance_at_spec[OF curve_scenario_valid]
  by (simp add: curve_resistance_spec_def overlaps_def clipped_sum_def upt_2 unit_resistance_def)

text \<open>
  Claim C1, as stated, fails. On the profile of \<^verbatim>\<open>test_calculate_curve_resistance\<close> (radii
  500 and 200, mass 50000 kg, train of 100 metres) the head at 550 stands over both
  intervals with 50 metres in each. The code returns about 1076 N; the sum of the
  contributions times their lengths, not divided by the occupied length, is 100 times that.
\<close>

theorem curve_resistance_is_normalized:
  "valid_profile [0, 500, 1000] [500, 200] \<and>
   length (inkl_intv [0, 500, 1000] 450 550) = 2 \<and>
   curve_resistance_at [0, 500, 1000] [500, 200] 100 50000 550 = Inr (Some (1627975 / 1513)) \<and>
   curve_resistance_unnormalized [0, 500, 1000] [500, 200] 50000 450 550 =
     Some (162797500 / 1513) \<and>
   curve_resistance_at [0, 500, 1000] [500, 200] 100 50000 550 \<noteq>
     Inr (curve_resistance_unnormalized [0, 500, 1000] [500, 200] 50000 450 550)"
proof -
  have u: "curve_resistance_unnormalized [0, 500, 1000] [500, 200] 50000 450 550 =
     Some (162797500 / 1513)"
    by (simp add: curve_resistance_unnormalized_def overlaps_def clipped_sum_def upt_2
        unit_resistance_def)
  show ?thesis
    using u curve_scenario_value curve_scenario_intervals curve_scenario_valid by simp
qed

text \<open>
  Claim C1, amended. For a valid curve profile with no radius of exactly 30 metres and a
  sample position whose occupied span overlaps more than one interval, the result is the
  sum of the contributions \<open>unit_resistance(r) * mass_kg\<close> times the clipped lengths,
  divided by the length of the occupied span, as in the equivalent-slope calculator.
\<close>

theorem curve_resistance_several_intervals:
  assumes "valid_profile curve_pos curve_radius" and "30 \<notin> set curve_radius"
    and "1 < length (inkl_intv curve_pos (xp - train_length) xp)"
  shows "curve_resistance_at curve_pos curve_radius train_length train_mass xp =
           Inr (Some (clipped_sum (\<lambda>j. unit_resistance (curve_radius ! j) * train_mass)
                        curve_pos (xp - train_length) xp
                        (inkl_intv curve_pos (xp - train_length) xp)
                      / (xp - (xp - train_length))))"
proof -
  have len: "length curve_radius = length curve_pos - 1"
    using assms(1) by (simp add: valid_profile_def)
  have J: "filter (overlaps curve_pos (xp - train_length) xp) [0..<length curve_radius] =
           inkl_intv curve_pos (xp - train_length) xp"
    by (simp add: inkl_intv_overlaps len)
  show ?thesis
    unfolding curve_resistance_at_spec[OF assms(1)] curve_resistance_spec_def J Let_def
    using assms(3) by (simp add: clipped_sum_divide)
qed

text \<open>The amended claim at the same position: 50 metres in each of two intervals of a span
  of 100 metres.\<close>

theorem curve_resistance_several_intervals_witness:
  "valid_profile [0, 500, 1000] [500, 200] \<and> 30 \<notin> set [500, 200 :: real] \<and>
   1 < length (inkl_intv [0, 500, 1000] 450 550) \<and>
   clipped_sum (\<lambda>j. unit_resistance ([500, 200] ! j) * 50000) [0, 500, 1000] 450 550
     (inkl_intv [0, 500, 1000] 450 550) = 162797500 / 1513 \<and>
   curve_resistance_at [0, 500, 1000] [500, 200] 100 50000 550 =
     Inr (Some (162797500 / 1513 / 100))"
proof -
  have h: "30 \<notin> set [500, 200 :: real]"
    "1 < length (inkl_intv [0, 500, 1000] 450 550)"
    by (simp_all add: curve_scenario_intervals)
  have c: "clipped_sum (\<lambda>j. unit_resistance ([500, 200] ! j) * 50000) [0, 500, 1000]
     450 550 (inkl_intv [0, 500, 1000] 450 550) = 162797500 / 1513"
    by (simp add: curve_scenario_intervals clipped_sum_def unit_resistance_def)
  from curve_resistance_several_intervals[of "[0, 500, 1000]" "[500, 200]" 550 100 50000]
  show ?thesis using curve_scenario_valid h c by simp
qed















lemma slope_scenario_values:
  "calculate_equivalent_slope [0, 500, 1000] [0.01, 0.02] [0, 550, 1100] 100 =
     Inr [Some 0.01, Some 0.015, None]"
  unfolding calculate_equivalent_slope_spec[OF slope_scenario_valid]
  by (simp add: equivalent_slope_spec_def overlaps_def clipped_sum_def upt_2)


section \<open>Rounding in the resistance calculators\<close>





















end
